theory Spec2Isabelle
  imports Complex_Main
begin

section \<open>JavaScript strings\<close>

text \<open>
  A JavaScript string is a sequence of UTF-16 code units; \<open>length\<close>, \<open>slice\<close>,
  \<open>split\<close>, \<open>trim\<close> and the regular expressions used by the sources (none has the
  \<open>u\<close> flag) all work on code units. A string is therefore a list of code units, each a
  natural number; \<open>js\<close> turns an ASCII literal into such a list.
\<close>

type_synonym jsstring = "nat list"

definition js :: "string \<Rightarrow> jsstring" where
  "js s = map of_char s"

text \<open>
  The class \<open>\s\<close> of a regular expression and the characters removed by \<open>trim\<close> are the
  same set: ECMAScript's WhiteSpace and LineTerminator code points.
\<close>

definition is_ws :: "nat \<Rightarrow> bool" where
  "is_ws c \<longleftrightarrow>
     c = 9 \<or> c = 10 \<or> c = 11 \<or> c = 12 \<or> c = 13 \<or> c = 32 \<or> c = 160 \<or> c = 5760 \<or>
     (8192 \<le> c \<and> c \<le> 8202) \<or> c = 8232 \<or> c = 8233 \<or> c = 8239 \<or> c = 8287 \<or>
     c = 12288 \<or> c = 65279"

text \<open>The class \<open>[a-zA-Z0-9]\<close>.\<close>

definition is_alnum :: "nat \<Rightarrow> bool" where
  "is_alnum c \<longleftrightarrow> (97 \<le> c \<and> c \<le> 122) \<or> (65 \<le> c \<and> c \<le> 90) \<or> (48 \<le> c \<and> c \<le> 57)"

text \<open>\<open>s.trim()\<close>\<close>

definition trim :: "jsstring \<Rightarrow> jsstring" where
  "trim s = rev (dropWhile is_ws (rev (dropWhile is_ws s)))"

text \<open>
  \<open>s.split(/\s+/)\<close>: the pieces between the maximal runs of white space; a run at
  either end leaves an empty piece there, and the empty string gives one empty piece.
\<close>

fun split_ws :: "jsstring \<Rightarrow> jsstring list" where
  "split_ws [] = [[]]"
| "split_ws (c # cs) =
     (if is_ws c then
        (case cs of
           [] \<Rightarrow> [] # split_ws cs
         | d # _ \<Rightarrow> if is_ws d then split_ws cs else [] # split_ws cs)
      else
        (case split_ws cs of
           [] \<Rightarrow> [[c]]
         | p # ps \<Rightarrow> (c # p) # ps))"

text \<open>\<open>s.split('\n')\<close>: always at least one piece.\<close>

fun split_nl :: "jsstring \<Rightarrow> jsstring list" where
  "split_nl [] = [[]]"
| "split_nl (c # cs) =
     (if c = 10 then [] # split_nl cs
      else
        (case split_nl cs of
           [] \<Rightarrow> [[c]]
         | p # ps \<Rightarrow> (c # p) # ps))"

section \<open>Token estimation (module \<open>lib/tokenizer\<close>)\<close>

text \<open>
  \<^verbatim>\<open>
  export function estimateTokens(text: string): number {
    if (!text) return 0;
    const words = text.split(/\s+/).filter(Boolean);
    const wordTokens = words.length * 1.3;
    const specialChars = (text.match(/[^a-zA-Z0-9\s]/g) ?? []).length;
    const estimate = Math.ceil(wordTokens + specialChars * 0.5);
    const charEstimate = Math.ceil(text.length / 4);
    return Math.max(estimate, charEstimate, 1);
  }
  \<close>
  The arithmetic is done on rationals. The source computes in IEEE doubles, where
  \<open>specialChars * 0.5\<close> and \<open>length / 4\<close> are exact and the product with \<open>1.3\<close> is
  rounded. For a string of fewer than \<open>2\<^sup>3\<^sup>1\<close> code units (no engine holds a longer one)
  the rounded sum differs from the exact one by less than \<open>10\<^sup>-\<^sup>6\<close>. The exact sum is a
  multiple of \<open>1/10\<close>: when it is not an integer it is at least \<open>1/10\<close> away from one, and
  when it is an integer the word count is a multiple of 5, the product is a multiple of
  \<open>1/2\<close> and the doubles compute it exactly (the double nearest to \<open>1.3\<close> exceeds it by a
  relative \<open>3.5 \<cdot> 10\<^sup>-\<^sup>1\<^sup>7 < 2\<^sup>-\<^sup>5\<^sup>4\<close>). Either way \<open>Math.ceil\<close> returns the ceiling of
  the exact value.
\<close>

definition words :: "jsstring \<Rightarrow> jsstring list" where
  "words text = filter (\<lambda>w. w \<noteq> []) (split_ws text)"

definition specialChars :: "jsstring \<Rightarrow> nat" where
  "specialChars text = length (filter (\<lambda>c. \<not> is_alnum c \<and> \<not> is_ws c) text)"

definition wordEstimate :: "jsstring \<Rightarrow> int" where
  "wordEstimate text =
     \<lceil>rat_of_nat (length (words text)) * (13 / 10) + rat_of_nat (specialChars text) * (1 / 2)\<rceil>"

definition charEstimate :: "jsstring \<Rightarrow> int" where
  "charEstimate text = \<lceil>rat_of_nat (length text) / 4\<rceil>"

definition estimateTokens :: "jsstring \<Rightarrow> int" where
  "estimateTokens text =
     (if text = [] then 0
      else max (max (wordEstimate text) (charEstimate text)) 1)"

section \<open>Pollen cost (module \<open>lib/pollenMath\<close>)\<close>

text \<open>
  The pricing argument of \<open>computePollenCost\<close>: every rate is optional. Numbers are
  rationals; the source's doubles round each product and sum, which none of the properties
  below depends on. The two token counts are passed explicitly (the source defaults them
  to 100 and 500 when the caller leaves them out).
\<close>

record pricing =
  promptTextTokens :: "rat option"
  promptAudioTokens :: "rat option"
  completionTextTokens :: "rat option"
  completionImageTokens :: "rat option"
  completionVideoSeconds :: "rat option"
  completionVideoTokens :: "rat option"
  completionAudioSeconds :: "rat option"
  completionAudioTokens :: "rat option"

definition MIN_POLLEN_PER_PROMPT :: rat where
  "MIN_POLLEN_PER_PROMPT = 4 / 100000"

definition EPSILON :: rat where
  "EPSILON = 1 / 10000000000"

text \<open>\<open>if (x)\<close> on an optional number: present and not zero.\<close>

definition truthy_num :: "rat option \<Rightarrow> bool" where
  "truthy_num x = (case x of None \<Rightarrow> False | Some r \<Rightarrow> r \<noteq> 0)"

text \<open>The two \<open>if\<close> statements that add the input cost.\<close>

definition inputCost :: "pricing \<Rightarrow> rat \<Rightarrow> rat" where
  "inputCost p inputTokens =
     (if truthy_num (promptTextTokens p) then the (promptTextTokens p) * inputTokens else 0) +
     (if truthy_num (promptAudioTokens p) then the (promptAudioTokens p) * inputTokens else 0)"

text \<open>The \<open>if\<close> / \<open>else if\<close> chain that adds the output cost.\<close>

definition outputCost :: "pricing \<Rightarrow> rat \<Rightarrow> rat" where
  "outputCost p outputTokens =
     (if truthy_num (completionTextTokens p) then the (completionTextTokens p) * outputTokens
      else if truthy_num (completionImageTokens p) then the (completionImageTokens p)
      else if truthy_num (completionVideoSeconds p) then the (completionVideoSeconds p) * 5
      else if truthy_num (completionVideoTokens p) then the (completionVideoTokens p) * outputTokens
      else if truthy_num (completionAudioTokens p) then the (completionAudioTokens p) * outputTokens
      else if truthy_num (completionAudioSeconds p) then the (completionAudioSeconds p) * 10
      else 0)"

definition computePollenCost :: "pricing option \<Rightarrow> rat \<Rightarrow> rat \<Rightarrow> rat" where
  "computePollenCost pr inputTokens outputTokens =
     (case pr of
        None \<Rightarrow> MIN_POLLEN_PER_PROMPT
      | Some p \<Rightarrow> max (inputCost p inputTokens + outputCost p outputTokens) MIN_POLLEN_PER_PROMPT)"

definition hasSufficientPollen :: "rat \<Rightarrow> rat \<Rightarrow> bool" where
  "hasSufficientPollen balance requiredPollen \<longleftrightarrow> balance + EPSILON \<ge> requiredPollen"

section \<open>Data model (module \<open>types\<close>)\<close>

datatype GenerationMode = TextMode | ImageMode | VideoMode | AudioMode

datatype Role = User | Assistant | System

datatype AttachmentType = ImageAtt | VideoAtt | AudioAtt | FileAtt

record MessageAttachment =
  att_id :: jsstring
  att_type :: AttachmentType
  att_name :: jsstring
  mimeType :: jsstring
  dataUrl :: jsstring
  sizeBytes :: int

text \<open>A field declared with \<open>?\<close> is an option: \<open>None\<close> is the missing key.\<close>

record ChatMessage =
  msg_id :: jsstring
  role :: Role
  content :: jsstring
  mode :: GenerationMode
  attachments :: "MessageAttachment list"
  timestamp :: int
  model :: "jsstring option"
  tokensUsed :: "int option"
  pollenSpent :: "rat option"
  isPartial :: "bool option"
  isError :: "bool option"

record ChatSession =
  sess_id :: jsstring
  title :: jsstring
  messages :: "ChatMessage list"
  sess_model :: jsstring
  createdAt :: int
  updatedAt :: int
  totalPollenSpent :: rat

text \<open>
  \<open>Partial<ChatMessage>\<close>, the argument of \<open>updateMessage\<close>: each key is present
  (\<open>Some\<close>) or absent. The spread \<open>{ ...m, ...update }\<close> overwrites exactly the keys
  that are present.
\<close>

record MessageUpdate =
  u_id :: "jsstring option"
  u_role :: "Role option"
  u_content :: "jsstring option"
  u_mode :: "GenerationMode option"
  u_attachments :: "MessageAttachment list option"
  u_timestamp :: "int option"
  u_model :: "jsstring option"
  u_tokensUsed :: "int option"
  u_pollenSpent :: "rat option"
  u_isPartial :: "bool option"
  u_isError :: "bool option"

definition no_update :: MessageUpdate where
  "no_update = \<lparr>u_id = None, u_role = None, u_content = None, u_mode = None,
     u_attachments = None, u_timestamp = None, u_model = None, u_tokensUsed = None,
     u_pollenSpent = None, u_isPartial = None, u_isError = None\<rparr>"

definition overwrite :: "'a \<Rightarrow> 'a option \<Rightarrow> 'a" where
  "overwrite old new = (case new of None \<Rightarrow> old | Some v \<Rightarrow> v)"

definition overwrite_opt :: "'a option \<Rightarrow> 'a option \<Rightarrow> 'a option" where
  "overwrite_opt old new = (case new of None \<Rightarrow> old | Some v \<Rightarrow> Some v)"

definition merge_update :: "ChatMessage \<Rightarrow> MessageUpdate \<Rightarrow> ChatMessage" where
  "merge_update m u =
     \<lparr>msg_id = overwrite (msg_id m) (u_id u),
      role = overwrite (role m) (u_role u),
      content = overwrite (content m) (u_content u),
      mode = overwrite (mode m) (u_mode u),
      attachments = overwrite (attachments m) (u_attachments u),
      timestamp = overwrite (timestamp m) (u_timestamp u),
      model = overwrite_opt (model m) (u_model u),
      tokensUsed = overwrite_opt (tokensUsed m) (u_tokensUsed u),
      pollenSpent = overwrite_opt (pollenSpent m) (u_pollenSpent u),
      isPartial = overwrite_opt (isPartial m) (u_isPartial u),
      isError = overwrite_opt (isError m) (u_isError u)\<rparr>"

section \<open>Session store (the hook \<open>useLocalSession\<close>)\<close>

text \<open>
  The store is the React state \<open>sessions\<close>. Every operation is
  \<open>setSessions((prev) => prev.map(...))\<close>: a pure function of the previous list, applied
  by React in call order. \<open>Date.now()\<close> is the argument \<open>now\<close>. The write to IndexedDB
  (\<open>saveSession\<close>, fire-and-forget) does not touch the state and is left out.
\<close>

text \<open>\<open>content.slice(0, 50) + (content.length > 50 ? '...' : '')\<close>\<close>

definition autoTitle :: "jsstring \<Rightarrow> jsstring" where
  "autoTitle c = take 50 c @ (if length c > 50 then js ''...'' else [])"

definition addMessage :: "int \<Rightarrow> jsstring \<Rightarrow> ChatMessage \<Rightarrow> ChatSession list \<Rightarrow> ChatSession list" where
  "addMessage now sessionId message prev =
     map (\<lambda>s. if sess_id s \<noteq> sessionId then s
              else s\<lparr>messages := messages s @ [message],
                     updatedAt := now,
                     title := (if length (messages s) = 0 \<and> role message = User
                               then autoTitle (content message) else title s)\<rparr>) prev"

definition updateMessage :: "int \<Rightarrow> jsstring \<Rightarrow> jsstring \<Rightarrow> MessageUpdate \<Rightarrow> ChatSession list \<Rightarrow> ChatSession list" where
  "updateMessage now sessionId messageId update prev =
     map (\<lambda>s. if sess_id s \<noteq> sessionId then s
              else s\<lparr>messages := map (\<lambda>m. if msg_id m = messageId then merge_update m update else m)
                                       (messages s),
                     updatedAt := now\<rparr>) prev"

definition deleteMessage :: "int \<Rightarrow> jsstring \<Rightarrow> jsstring \<Rightarrow> ChatSession list \<Rightarrow> ChatSession list" where
  "deleteMessage now sessionId messageId prev =
     map (\<lambda>s. if sess_id s \<noteq> sessionId then s
              else s\<lparr>messages := filter (\<lambda>m. msg_id m \<noteq> messageId) (messages s),
                     updatedAt := now\<rparr>) prev"

text \<open>\<open>xs.findIndex(p)\<close>: the first index whose element satisfies \<open>p\<close>; \<open>None\<close> is \<open>-1\<close>.\<close>

fun findIndex :: "('a \<Rightarrow> bool) \<Rightarrow> 'a list \<Rightarrow> nat option" where
  "findIndex p [] = None"
| "findIndex p (x # xs) =
     (if p x then Some 0 else (case findIndex p xs of None \<Rightarrow> None | Some i \<Rightarrow> Some (Suc i)))"

definition deleteMessagesFrom :: "int \<Rightarrow> jsstring \<Rightarrow> jsstring \<Rightarrow> ChatSession list \<Rightarrow> ChatSession list" where
  "deleteMessagesFrom now sessionId messageId prev =
     map (\<lambda>s. if sess_id s \<noteq> sessionId then s
              else (case findIndex (\<lambda>m. msg_id m = messageId) (messages s) of
                      None \<Rightarrow> s
                    | Some idx \<Rightarrow> s\<lparr>messages := take idx (messages s), updatedAt := now\<rparr>)) prev"

text \<open>\<open>sessions.find((s) => s.id === activeSessionId) ?? null\<close>\<close>

definition activeSession :: "ChatSession list \<Rightarrow> jsstring option \<Rightarrow> ChatSession option" where
  "activeSession sessions activeSessionId =
     (case activeSessionId of
        None \<Rightarrow> None
      | Some i \<Rightarrow> find (\<lambda>s. sess_id s = i) sessions)"

section \<open>JavaScript values read from JSON\<close>

text \<open>
  What \<open>JSON.parse\<close> can return. An object is the list of its own properties, each key
  once; a number is the rational it denotes. \<open>undefined\<close>, the value of a missing
  property, is \<open>None\<close> of \<open>json option\<close>.
\<close>

datatype json =
    JNull
  | JBool bool
  | JNum rat
  | JStr jsstring
  | JArr "json list"
  | JObj "(jsstring \<times> json) list"

text \<open>\<open>if (v)\<close>: \<open>undefined\<close>, \<open>null\<close>, \<open>false\<close>, \<open>0\<close> and \<open>''\<close> are falsy.\<close>

fun truthy :: "json option \<Rightarrow> bool" where
  "truthy None = False"
| "truthy (Some JNull) = False"
| "truthy (Some (JBool b)) = b"
| "truthy (Some (JNum n)) = (n \<noteq> 0)"
| "truthy (Some (JStr s)) = (s \<noteq> [])"
| "truthy (Some (JArr xs)) = True"
| "truthy (Some (JObj kvs)) = True"

text \<open>
  \<open>v.key\<close> for a value that is not \<open>null\<close>, and a key that no built-in prototype
  defines (the sources read \<open>usage\<close>, \<open>user_tier\<close>, \<open>choices\<close>, \<open>delta\<close>, \<open>content\<close>,
  \<open>error\<close>, \<open>code\<close>, \<open>message\<close>, \<open>id\<close>, \<open>messages\<close>, \<open>version\<close>, \<open>sessions\<close>): only an
  object can have it.
\<close>

fun js_prop :: "json \<Rightarrow> jsstring \<Rightarrow> json option" where
  "js_prop (JObj kvs) k = map_of kvs k"
| "js_prop _ k = None"

text \<open>\<open>v?.key\<close>: \<open>undefined\<close> when \<open>v\<close> is \<open>undefined\<close> or \<open>null\<close>.\<close>

fun opt_prop :: "json option \<Rightarrow> jsstring \<Rightarrow> json option" where
  "opt_prop None k = None"
| "opt_prop (Some JNull) k = None"
| "opt_prop (Some v) k = js_prop v k"

text \<open>
  \<open>v?.[0]\<close>: the first element of an array, the first code unit of a string, the
  property \<open>"0"\<close> of an object.
\<close>

fun opt_index0 :: "json option \<Rightarrow> json option" where
  "opt_index0 (Some (JArr xs)) = (case xs of [] \<Rightarrow> None | x # _ \<Rightarrow> Some x)"
| "opt_index0 (Some (JStr s)) = (case s of [] \<Rightarrow> None | c # _ \<Rightarrow> Some (JStr [c]))"
| "opt_index0 (Some (JObj kvs)) = map_of kvs (js ''0'')"
| "opt_index0 _ = None"

text \<open>\<open>a ?? b\<close>\<close>

fun nullish_or :: "json option \<Rightarrow> json \<Rightarrow> json" where
  "nullish_or None d = d"
| "nullish_or (Some JNull) d = d"
| "nullish_or (Some v) d = v"

text \<open>\<open>s.includes(sub)\<close>\<close>

fun includes_js :: "jsstring \<Rightarrow> jsstring \<Rightarrow> bool" where
  "includes_js [] sub = (sub = [])"
| "includes_js (c # cs) sub = (take (length sub) (c # cs) = sub \<or> includes_js cs sub)"

text \<open>The decimal digits of a number, as a template literal prints a status code.\<close>

fun decimal :: "nat \<Rightarrow> jsstring" where
  "decimal n = (if n < 10 then [48 + n] else decimal (n div 10) @ [48 + n mod 10])"

section \<open>Streaming client (module \<open>lib/pollinations\<close>)\<close>

text \<open>
  What a caller of \<open>streamGeneration\<close> can catch. \<open>fetch\<close> and \<open>reader.read()\<close> reject
  with a \<open>DOMException\<close> named \<open>AbortError\<close> when the signal fires and with another
  error when the transport fails (\<open>OtherError\<close> with its message; its name is not
  \<open>AbortError\<close>); the function itself throws \<open>PollinationsError\<close>, whose arguments
  \<open>message\<close>, \<open>status\<close> and \<open>code\<close> are kept as passed.
\<close>

datatype js_error =
    AbortError
  | PollinationsError json nat json
  | OtherError jsstring

text \<open>
  One \<open>await reader.read()\<close> that does not report \<open>done\<close>: a chunk, given as the text
  \<open>decoder.decode(value, { stream: true })\<close> makes of it, or a rejection. The end of the
  list of reads is the read that reports \<open>done\<close>.
\<close>

datatype read = Data jsstring | ReadFails js_error

text \<open>
  The response \<open>fetch\<close> resolves with: \<open>res.ok\<close>, \<open>res.status\<close>, the content-type
  header (\<open>None\<close> when \<open>headers.get\<close> returns \<open>null\<close>), the value of
  \<open>res.json()\<close> (\<open>None\<close> when it rejects), and the reads of \<open>res.body\<close> (\<open>None\<close> when
  there is no body).
\<close>

record Response =
  ok :: bool
  status :: nat
  contentType :: "jsstring option"
  jsonBody :: "json option"
  body :: "read list option"

datatype fetch_outcome = FetchRejects js_error | FetchResolves Response

text \<open>The calls the function makes to its two callbacks, in order.\<close>

datatype event = is_Chunk: Chunk json | is_Done: Done "json option" "json option"

record StreamVars =
  lastUsage :: "json option"
  lastTier :: "json option"

text \<open>
  The body of the \<open>try\<close> for one \<open>data: \<close> line. \<open>JSON.parse\<close> is the argument \<open>parse\<close>
  (\<open>None\<close>: it throws). A payload that parses to \<open>null\<close> throws at \<open>json.usage\<close>. Either
  exception is caught and the line is skipped.
\<close>

definition handle_frame ::
  "(jsstring \<Rightarrow> json option) \<Rightarrow> jsstring \<Rightarrow> StreamVars \<Rightarrow> event list \<times> StreamVars" where
  "handle_frame parse payload v =
     (case parse payload of
        None \<Rightarrow> ([], v)
      | Some JNull \<Rightarrow> ([], v)
      | Some j \<Rightarrow>
          (let v1 = (if truthy (js_prop j (js ''usage'')) then v\<lparr>lastUsage := js_prop j (js ''usage'')\<rparr> else v);
               v2 = (if truthy (js_prop j (js ''user_tier''))
                     then v1\<lparr>lastTier := js_prop j (js ''user_tier'')\<rparr> else v1);
               delta = opt_prop (opt_prop (opt_index0 (js_prop j (js ''choices''))) (js ''delta''))
                         (js ''content'')
           in (if truthy delta then [Chunk (the delta)] else [], v2)))"

text \<open>
  The \<open>for\<close> loop over the complete lines of one read. The third component of the result
  says whether the function has returned (after \<open>data: [DONE]\<close>).
\<close>

fun process_lines ::
  "(jsstring \<Rightarrow> json option) \<Rightarrow> jsstring list \<Rightarrow> StreamVars \<Rightarrow> event list \<times> StreamVars \<times> bool" where
  "process_lines parse [] v = ([], v, False)"
| "process_lines parse (line # rest) v =
     (if trim line = [] \<or> trim line = js '':'' then process_lines parse rest v
      else if trim line = js ''data: [DONE]'' then ([Done (lastUsage v) (lastTier v)], v, True)
      else if take 6 (trim line) = js ''data: '' then
        (case handle_frame parse (drop 6 (trim line)) v of
           (evs, v') \<Rightarrow>
             (case process_lines parse rest v' of
                (evs', v'', returned) \<Rightarrow> (evs @ evs', v'', returned)))
      else process_lines parse rest v)"

text \<open>
  The \<open>while (true)\<close> loop and the final \<open>onDone\<close>. The result is the calls made and
  how the promise settles: \<open>Inr ()\<close> resolved, \<open>Inl e\<close> rejected with \<open>e\<close>.
\<close>

fun read_loop ::
  "(jsstring \<Rightarrow> json option) \<Rightarrow> read list \<Rightarrow> jsstring \<Rightarrow> StreamVars \<Rightarrow> event list \<times> (js_error + unit)" where
  "read_loop parse [] buffer v = ([Done (lastUsage v) (lastTier v)], Inr ())"
| "read_loop parse (ReadFails e # rest) buffer v = ([], Inl e)"
| "read_loop parse (Data chunk # rest) buffer v =
     (case process_lines parse (butlast (split_nl (buffer @ chunk))) v of
        (evs, v', returned) \<Rightarrow>
          if returned then (evs, Inr ())
          else
            (case read_loop parse rest (last (split_nl (buffer @ chunk))) v' of
               (evs', r) \<Rightarrow> (evs @ evs', r)))"

text \<open>
  \<open>streamGeneration\<close> from the moment \<open>fetch\<close> settles. The request it sends (key,
  payload, signal) does not enter the result; the signal shows as a rejection with
  \<open>AbortError\<close>.
\<close>

definition streamGeneration ::
  "(jsstring \<Rightarrow> json option) \<Rightarrow> fetch_outcome \<Rightarrow> event list \<times> (js_error + unit)" where
  "streamGeneration parse outcome =
     (case outcome of
        FetchRejects e \<Rightarrow> ([], Inl e)
      | FetchResolves res \<Rightarrow>
          if \<not> ok res then
            ([], Inl (PollinationsError
               (nullish_or (opt_prop (opt_prop (jsonBody res) (js ''error'')) (js ''message''))
                  (JStr (js ''HTTP '' @ decimal (status res))))
               (status res)
               (nullish_or (opt_prop (opt_prop (jsonBody res) (js ''error'')) (js ''code'')) (JStr []))))
          else if includes_js (case contentType res of None \<Rightarrow> [] | Some c \<Rightarrow> c) (js ''application/json'')
                  \<and> \<not> includes_js (case contentType res of None \<Rightarrow> [] | Some c \<Rightarrow> c) (js ''stream'') then
            ([], Inl (PollinationsError
               (nullish_or (opt_prop (opt_prop (jsonBody res) (js ''error'')) (js ''message''))
                  (JStr (js ''Model does not support text streaming'')))
               200
               (nullish_or (opt_prop (opt_prop (jsonBody res) (js ''error'')) (js ''code''))
                  (JStr (js ''unsupported_model'')))))
          else
            (case body res of
               None \<Rightarrow>
                 ([], Inl (PollinationsError
                    (JStr (js ''The server returned an empty response. Please try again.''))
                    0 (JStr (js ''empty_body''))))
             | Some reads \<Rightarrow> read_loop parse reads [] \<lparr>lastUsage = None, lastTier = None\<rparr>))"

section \<open>The orchestrator (component \<open>ChatPage\<close>)\<close>

datatype ModelType = TextModel | ImageModel | VideoModel | AudioModel

text \<open>
  The fields of \<open>PollinationsModel\<close> that \<open>handleSend\<close> reads. \<open>computePollenCost\<close> accepts
  a missing pricing, so the field is optional here.
\<close>

record PollinationsModel =
  m_name :: jsstring
  m_type :: ModelType
  m_pricing :: "pricing option"

record AppSettings =
  autoFetchUsage :: bool
  autoReadBalance :: bool
  systemPrompt :: jsstring

text \<open>
  The values a render of \<open>ChatPage\<close> holds, which the callbacks created by that render
  close over. \<open>balance\<close> is \<open>balance.balance\<close> of the \<open>AccountBalance\<close>, or \<open>None\<close> for
  \<open>null\<close>.
\<close>

record AppState =
  sessions :: "ChatSession list"
  activeSessionId :: "jsstring option"
  selectedModel :: "PollinationsModel option"
  isStreaming :: bool
  balance :: "rat option"
  settings :: AppSettings

text \<open>
  The values \<open>uuid()\<close> and \<open>Date.now()\<close> return during one \<open>handleSend\<close>, one field for
  each call in the source.
\<close>

record SendEnv =
  e_sessionId :: jsstring
  e_sessionCreatedAt :: int
  e_sessionUpdatedAt :: int
  e_userMsgId :: jsstring
  e_userMsgTime :: int
  e_addUserTime :: int
  e_assistantId :: jsstring
  e_assistantTime :: int
  e_addAssistantTime :: int

text \<open>\<open>createSession(model)\<close>: the new session goes to the front of the list.\<close>

definition createSession :: "SendEnv \<Rightarrow> jsstring \<Rightarrow> ChatSession list \<Rightarrow> ChatSession list" where
  "createSession env modelName prev =
     \<lparr>sess_id = e_sessionId env, title = js ''New Chat'', messages = [], sess_model = modelName,
      createdAt = e_sessionCreatedAt env, updatedAt = e_sessionUpdatedAt env,
      totalPollenSpent = 0\<rparr> # prev"

record ApiMessage =
  api_role :: Role
  api_content :: jsstring

definition markdownInstruction :: jsstring where
  "markdownInstruction = js (''Format your responses using Markdown. Use headings, bullet points, '' @
     ''numbered lists, code blocks with language tags, bold, italic, tables, and other Markdown '' @
     ''formatting as appropriate to make responses clear and well-structured.'')"

text \<open>The request the call goes on to await.\<close>

datatype Generation =
    ImageGen jsstring jsstring
  | VideoGen jsstring jsstring
  | TextGen jsstring "ApiMessage list"

text \<open>
  The state \<open>handleSend\<close> has reached when it starts to await the generation: the store
  after its updates, the active session, the session and placeholder it writes to, and
  \<open>isStreaming\<close> set by \<open>setIsStreaming(true)\<close>.
\<close>

record Pending =
  p_sessions :: "ChatSession list"
  p_activeSessionId :: "jsstring option"
  p_isStreaming :: bool
  p_sessionId :: jsstring
  p_assistantId :: jsstring
  p_request :: Generation

text \<open>
  \<open>Ignored\<close>: the first \<open>return\<close>. \<open>Insufficient cost balance\<close>: the pollen gate calls
  \<open>notifyError\<close> with these two numbers and returns.
\<close>

datatype SendResult = Ignored | Insufficient rat rat | Started Pending

definition userMessage :: "SendEnv \<Rightarrow> PollinationsModel \<Rightarrow> jsstring \<Rightarrow> GenerationMode \<Rightarrow> MessageAttachment list \<Rightarrow> ChatMessage" where
  "userMessage env m text md atts =
     \<lparr>msg_id = e_userMsgId env, role = User, content = text, mode = md, attachments = atts,
      timestamp = e_userMsgTime env, model = Some (m_name m), tokensUsed = None,
      pollenSpent = None, isPartial = None, isError = None\<rparr>"

text \<open>The placeholder of each of the three paths differs in \<open>mode\<close> only.\<close>

definition placeholder :: "SendEnv \<Rightarrow> PollinationsModel \<Rightarrow> GenerationMode \<Rightarrow> ChatMessage" where
  "placeholder env m md =
     \<lparr>msg_id = e_assistantId env, role = Assistant, content = [], mode = md, attachments = [],
      timestamp = e_assistantTime env, model = Some (m_name m), tokensUsed = None,
      pollenSpent = None, isPartial = Some True, isError = None\<rparr>"

definition effectiveMode :: "ModelType \<Rightarrow> GenerationMode \<Rightarrow> GenerationMode" where
  "effectiveMode modelType md =
     (if modelType = ImageModel then ImageMode
      else if modelType = VideoModel then VideoMode
      else if modelType = TextModel \<and> md \<noteq> TextMode then TextMode
      else md)"

definition apiMessages :: "AppState \<Rightarrow> ChatMessage \<Rightarrow> ApiMessage list" where
  "apiMessages st userMsg =
     \<lparr>api_role = System,
      api_content = (if systemPrompt (settings st) \<noteq> []
                     then systemPrompt (settings st) @ [10, 10] @ markdownInstruction
                     else markdownInstruction)\<rparr> #
     map (\<lambda>m. \<lparr>api_role = role m, api_content = content m\<rparr>)
       ((case activeSession (sessions st) (activeSessionId st) of
           None \<Rightarrow> []
         | Some a \<Rightarrow> messages a) @ [userMsg])"

text \<open>
  \<open>handleSend(text, mode, attachments)\<close> up to the point where it awaits the generation.
  \<open>st\<close> is the render the callback closes over; \<open>prev\<close> is the store its updates are
  applied to (the same list as \<open>sessions st\<close> unless an update was queued after that
  render, as in \<open>handleRegenerate\<close>).
\<close>

definition handleSend ::
  "SendEnv \<Rightarrow> AppState \<Rightarrow> ChatSession list \<Rightarrow> jsstring \<Rightarrow> GenerationMode \<Rightarrow> MessageAttachment list \<Rightarrow> SendResult" where
  "handleSend env st prev text md atts =
     (case selectedModel st of
        None \<Rightarrow> Ignored
      | Some m \<Rightarrow>
          if trim text = [] \<and> atts = [] then Ignored
          else if autoReadBalance (settings st) \<and> balance st \<noteq> None \<and>
                  \<not> hasSufficientPollen (the (balance st))
                      (computePollenCost (m_pricing m) (of_int (estimateTokens text)) 0)
          then Insufficient (computePollenCost (m_pricing m) (of_int (estimateTokens text)) 0)
                 (the (balance st))
          else
            (let sessionId = (case activeSessionId st of None \<Rightarrow> e_sessionId env | Some i \<Rightarrow> i);
                 prev1 = (case activeSessionId st of
                            None \<Rightarrow> createSession env (m_name m) prev
                          | Some i \<Rightarrow> prev);
                 userMsg = userMessage env m text md atts;
                 prev2 = addMessage (e_addUserTime env) sessionId userMsg prev1;
                 eff = effectiveMode (m_type m) md
             in Started
                  \<lparr>p_sessions = addMessage (e_addAssistantTime env) sessionId
                      (placeholder env m
                         (if eff = ImageMode then ImageMode
                          else if eff = VideoMode then VideoMode else TextMode)) prev2,
                   p_activeSessionId = Some sessionId,
                   p_isStreaming = True,
                   p_sessionId = sessionId,
                   p_assistantId = e_assistantId env,
                   p_request =
                     (if eff = ImageMode then ImageGen text (m_name m)
                      else if eff = VideoMode then VideoGen text (m_name m)
                      else TextGen (m_name m) (apiMessages st userMsg))\<rparr>))"

subsection \<open>The text path: the two callbacks, \<open>catch\<close> and \<open>finally\<close>\<close>

record Usage =
  prompt_tokens :: int
  completion_tokens :: int
  total_tokens :: int

text \<open>The store and the local variable \<open>accum\<close> while the stream is consumed.\<close>

record TextRun =
  r_sessions :: "ChatSession list"
  accum :: jsstring

definition onChunk :: "int \<Rightarrow> jsstring \<Rightarrow> jsstring \<Rightarrow> jsstring \<Rightarrow> TextRun \<Rightarrow> TextRun" where
  "onChunk now sessionId assistantId chunk r =
     \<lparr>r_sessions = updateMessage now sessionId assistantId
        (no_update\<lparr>u_content := Some (accum r @ chunk),
                   u_tokensUsed := Some (estimateTokens (accum r @ chunk)),
                   u_isPartial := Some True\<rparr>) (r_sessions r),
      accum = accum r @ chunk\<rparr>"

definition onDone :: "int \<Rightarrow> jsstring \<Rightarrow> jsstring \<Rightarrow> Usage option \<Rightarrow> TextRun \<Rightarrow> TextRun" where
  "onDone now sessionId assistantId usage r =
     r\<lparr>r_sessions := updateMessage now sessionId assistantId
        (no_update\<lparr>u_content := Some (accum r),
                   u_tokensUsed := Some (case usage of
                                           None \<Rightarrow> estimateTokens (accum r)
                                         | Some u \<Rightarrow> completion_tokens u),
                   u_isPartial := Some False\<rparr>) (r_sessions r)\<rparr>"

text \<open>
  One call of a callback by \<open>streamGeneration\<close>, with the value \<open>Date.now()\<close> has when
  \<open>updateMessage\<close> runs.
\<close>

datatype callback = OnChunk int jsstring | OnDone int "Usage option"

fun run_callbacks :: "jsstring \<Rightarrow> jsstring \<Rightarrow> callback list \<Rightarrow> TextRun \<Rightarrow> TextRun" where
  "run_callbacks sessionId assistantId [] r = r"
| "run_callbacks sessionId assistantId (OnChunk now chunk # cbs) r =
     run_callbacks sessionId assistantId cbs (onChunk now sessionId assistantId chunk r)"
| "run_callbacks sessionId assistantId (OnDone now usage # cbs) r =
     run_callbacks sessionId assistantId cbs (onDone now sessionId assistantId usage r)"

text \<open>How the promise of \<open>streamGeneration\<close> settles.\<close>

datatype settle = Resolves | Rejects js_error

definition cancelMarker :: jsstring where
  "cancelMarker = [10, 10] @ js ''*[Generation cancelled]*''"

text \<open>
  The \<open>catch\<close> block. \<open>friendlyMsg\<close> is the text \<open>extractFriendlyError\<close> returns for the
  error; \<open>handleError\<close> only raises a notification.
\<close>

definition catchText ::
  "int \<Rightarrow> jsstring \<Rightarrow> jsstring \<Rightarrow> jsstring \<Rightarrow> js_error \<Rightarrow> TextRun \<Rightarrow> ChatSession list" where
  "catchText now friendlyMsg sessionId assistantId err r =
     (if err = AbortError then
        updateMessage now sessionId assistantId
          (no_update\<lparr>u_content := Some (accum r @ cancelMarker), u_isPartial := Some False\<rparr>)
          (r_sessions r)
      else if accum r = [] then
        updateMessage now sessionId assistantId
          (no_update\<lparr>u_content := Some friendlyMsg, u_isPartial := Some False,
                     u_isError := Some True\<rparr>)
          (r_sessions r)
      else r_sessions r)"

text \<open>
  The text path after the placeholder: the callbacks, then the \<open>catch\<close> block when the
  promise rejects. The result is the store and \<open>isStreaming\<close>, which \<open>finally\<close> clears.
\<close>

definition textGeneration ::
  "int \<Rightarrow> jsstring \<Rightarrow> jsstring \<Rightarrow> jsstring \<Rightarrow> callback list \<Rightarrow> settle \<Rightarrow> ChatSession list \<Rightarrow> ChatSession list \<times> bool" where
  "textGeneration now friendlyMsg sessionId assistantId cbs outcome store =
     (let r = run_callbacks sessionId assistantId cbs \<lparr>r_sessions = store, accum = []\<rparr>
      in (case outcome of
            Resolves \<Rightarrow> (r_sessions r, False)
          | Rejects err \<Rightarrow> (catchText now friendlyMsg sessionId assistantId err r, False)))"

subsection \<open>Regenerate and edit\<close>

text \<open>
  \<open>NoOp\<close>: one of the early returns. Otherwise the store after \<open>deleteMessagesFrom\<close>, the
  three arguments \<open>handleSend\<close> is called with, and what that call does.
\<close>

datatype RegenResult =
    NoOp
  | Resent "ChatSession list" jsstring GenerationMode "MessageAttachment list" SendResult

definition handleRegenerate ::
  "int \<Rightarrow> SendEnv \<Rightarrow> AppState \<Rightarrow> ChatSession list \<Rightarrow> jsstring \<Rightarrow> RegenResult" where
  "handleRegenerate now env st prev assistantMessageId =
     (if activeSessionId st = None \<or> activeSessionId st = Some [] \<or> isStreaming st then NoOp
      else
        (case activeSession (sessions st) (activeSessionId st) of
           None \<Rightarrow> NoOp
         | Some a \<Rightarrow>
             (case findIndex (\<lambda>m. msg_id m = assistantMessageId) (messages a) of
                None \<Rightarrow> NoOp
              | Some msgIndex \<Rightarrow>
                  if msgIndex = 0 then NoOp
                  else if role (messages a ! (msgIndex - 1)) \<noteq> User then NoOp
                  else
                    (let userMsg = messages a ! (msgIndex - 1);
                         prev' = deleteMessagesFrom now (the (activeSessionId st))
                                   assistantMessageId prev
                     in Resent prev' (content userMsg) (mode userMsg) (attachments userMsg)
                          (handleSend env st prev' (content userMsg) (mode userMsg)
                             (attachments userMsg))))))"


section \<open>The composer (component \<open>Composer\<close>)\<close>






section \<open>Export and import (module \<open>lib/exportImport\<close>)\<close>

text \<open>
  The JavaScript objects the records stand for, as \<open>JSON.stringify\<close> walks them: a
  missing optional field is a missing key. The keys are listed in the order of the
  interface declarations; nothing below depends on the order.
\<close>

definition role_json :: "Role \<Rightarrow> json" where
  "role_json r = JStr (case r of User \<Rightarrow> js ''user'' | Assistant \<Rightarrow> js ''assistant''
                               | System \<Rightarrow> js ''system'')"

definition mode_json :: "GenerationMode \<Rightarrow> json" where
  "mode_json md = JStr (case md of TextMode \<Rightarrow> js ''text'' | ImageMode \<Rightarrow> js ''image''
                                 | VideoMode \<Rightarrow> js ''video'' | AudioMode \<Rightarrow> js ''audio'')"

definition attachment_json :: "MessageAttachment \<Rightarrow> json" where
  "attachment_json a =
     JObj [(js ''id'', JStr (att_id a)),
           (js ''type'', JStr (case att_type a of ImageAtt \<Rightarrow> js ''image'' | VideoAtt \<Rightarrow> js ''video''
                                                 | AudioAtt \<Rightarrow> js ''audio'' | FileAtt \<Rightarrow> js ''file'')),
           (js ''name'', JStr (att_name a)),
           (js ''mimeType'', JStr (mimeType a)),
           (js ''dataUrl'', JStr (dataUrl a)),
           (js ''sizeBytes'', JNum (of_int (sizeBytes a)))]"

definition optional_key :: "jsstring \<Rightarrow> ('a \<Rightarrow> json) \<Rightarrow> 'a option \<Rightarrow> (jsstring \<times> json) list" where
  "optional_key k f v = (case v of None \<Rightarrow> [] | Some x \<Rightarrow> [(k, f x)])"

definition message_json :: "ChatMessage \<Rightarrow> json" where
  "message_json m =
     JObj ([(js ''id'', JStr (msg_id m)),
            (js ''role'', role_json (role m)),
            (js ''content'', JStr (content m)),
            (js ''mode'', mode_json (mode m)),
            (js ''attachments'', JArr (map attachment_json (attachments m))),
            (js ''timestamp'', JNum (of_int (timestamp m)))] @
           optional_key (js ''model'') JStr (model m) @
           optional_key (js ''tokensUsed'') (\<lambda>n. JNum (of_int n)) (tokensUsed m) @
           optional_key (js ''pollenSpent'') JNum (pollenSpent m) @
           optional_key (js ''isPartial'') JBool (isPartial m) @
           optional_key (js ''isError'') JBool (isError m))"

definition session_json :: "ChatSession \<Rightarrow> json" where
  "session_json s =
     JObj [(js ''id'', JStr (sess_id s)),
           (js ''title'', JStr (title s)),
           (js ''messages'', JArr (map message_json (messages s))),
           (js ''model'', JStr (sess_model s)),
           (js ''createdAt'', JNum (of_int (createdAt s))),
           (js ''updatedAt'', JNum (of_int (updatedAt s))),
           (js ''totalPollenSpent'', JNum (totalPollenSpent s))]"

text \<open>
  The object \<open>exportJSON\<close> builds; \<open>exportedAt\<close> is the value of
  \<open>new Date().toISOString()\<close>.
\<close>

definition exportData :: "jsstring \<Rightarrow> json list \<Rightarrow> json" where
  "exportData exportedAt sessionValues =
     JObj [(js ''version'', JStr (js ''1.0'')),
           (js ''exportedAt'', JStr exportedAt),
           (js ''sessions'', JArr sessionValues)]"

text \<open>\<open>JSON.stringify(data, null, 2)\<close> is the argument \<open>stringify\<close>.\<close>

definition exportJSON :: "(json \<Rightarrow> jsstring) \<Rightarrow> jsstring \<Rightarrow> json list \<Rightarrow> jsstring" where
  "exportJSON stringify exportedAt sessionValues = stringify (exportData exportedAt sessionValues)"

text \<open>
  What \<open>importJSON\<close> throws: its four \<open>Error\<close>s, and the \<open>TypeError\<close> of reading
  \<open>s.id\<close> when an element of the array is \<open>null\<close>.
\<close>

datatype import_error =
    InvalidJSONFormat
  | SessionsMustBeArray
  | InvalidSession
  | UnrecognizedFormat
  | NullSessionTypeError

text \<open>\<open>Array.isArray(v)\<close>\<close>

fun isArray :: "json option \<Rightarrow> bool" where
  "isArray (Some (JArr xs)) = True"
| "isArray _ = False"

text \<open>\<open>validateSessions\<close>: \<open>None\<close> when it returns, the error when it throws.\<close>

fun validateSessions :: "json list \<Rightarrow> import_error option" where
  "validateSessions [] = None"
| "validateSessions (s # rest) =
     (if s = JNull then Some NullSessionTypeError
      else if \<not> truthy (js_prop s (js ''id'')) \<or> \<not> truthy (js_prop s (js ''messages''))
              \<or> \<not> isArray (js_prop s (js ''messages''))
      then Some InvalidSession
      else validateSessions rest)"

text \<open>
  \<open>importJSON(raw)\<close>, with \<open>JSON.parse\<close> the argument \<open>parse\<close>. \<open>typeof parsed ===
  'object' && parsed !== null\<close> holds of objects and arrays; \<open>'version' in parsed\<close> holds
  of no array.
\<close>

definition importJSON :: "(jsstring \<Rightarrow> json option) \<Rightarrow> jsstring \<Rightarrow> import_error + json list" where
  "importJSON parse raw =
     (case parse raw of
        None \<Rightarrow> Inl InvalidJSONFormat
      | Some parsed \<Rightarrow>
          (case parsed of
             JObj kvs \<Rightarrow>
               if map_of kvs (js ''version'') \<noteq> None \<and> map_of kvs (js ''sessions'') \<noteq> None then
                 (case map_of kvs (js ''sessions'') of
                    Some (JArr ss) \<Rightarrow>
                      (case validateSessions ss of None \<Rightarrow> Inr ss | Some e \<Rightarrow> Inl e)
                  | _ \<Rightarrow> Inl SessionsMustBeArray)
               else Inl UnrecognizedFormat
           | JArr ss \<Rightarrow> (case validateSessions ss of None \<Rightarrow> Inr ss | Some e \<Rightarrow> Inl e)
           | _ \<Rightarrow> Inl UnrecognizedFormat))"

text \<open>Reading an imported session: its id, its title, the contents of its messages in order.\<close>

definition str_prop :: "json \<Rightarrow> jsstring \<Rightarrow> jsstring option" where
  "str_prop v k = (case js_prop v k of Some (JStr s) \<Rightarrow> Some s | _ \<Rightarrow> None)"

definition imported_contents :: "json \<Rightarrow> jsstring option list option" where
  "imported_contents v =
     (case js_prop v (js ''messages'') of
        Some (JArr ms) \<Rightarrow> Some (map (\<lambda>m. str_prop m (js ''content'')) ms)
      | _ \<Rightarrow> None)"

section \<open>Example data\<close>

text \<open>Small concrete values, used where a property is evaluated on an input.\<close>

definition example_message :: "jsstring \<Rightarrow> Role \<Rightarrow> jsstring \<Rightarrow> ChatMessage" where
  "example_message i r c =
     \<lparr>msg_id = i, role = r, content = c, mode = TextMode, attachments = [], timestamp = 1000,
      model = Some (js ''openai''), tokensUsed = None, pollenSpent = None, isPartial = None,
      isError = None\<rparr>"

definition example_session :: "jsstring \<Rightarrow> ChatMessage list \<Rightarrow> ChatSession" where
  "example_session i ms =
     \<lparr>sess_id = i, title = js ''Chat'', messages = ms, sess_model = js ''openai'',
      createdAt = 1000, updatedAt = 1000, totalPollenSpent = 0\<rparr>"

definition example_abcd :: "ChatMessage list" where
  "example_abcd =
     [example_message (js ''A'') User (js ''one''),
      example_message (js ''B'') Assistant (js ''two''),
      example_message (js ''C'') User (js ''three''),
      example_message (js ''D'') Assistant (js ''four'')]"

definition example_store :: "ChatSession list" where
  "example_store = [example_session (js ''s1'') example_abcd, example_session (js ''s2'') []]"

definition example_duplicates :: "ChatSession list" where
  "example_duplicates =
     [example_session (js ''s1'')
        [example_message (js ''A'') User (js ''one''),
         example_message (js ''B'') Assistant (js ''two''),
         example_message (js ''A'') User (js ''three''),
         example_message (js ''B'') Assistant (js ''four'')]]"

definition example_chat :: "ChatSession list" where
  "example_chat =
     [example_session (js ''s1'')
        [example_message (js ''u1'') User (js ''hi''),
         (example_message (js ''a1'') Assistant [])\<lparr>isPartial := Some True\<rparr>]]"

text \<open>
  A stream of three reads: a frame, a malformed frame and the start of a line; then the
  rest of that line (a frame with usage and tier), an empty line and the start of the
  end marker; then the rest of the marker and a frame after it. \<open>example_parse\<close> is
  \<open>JSON.parse\<close> on the payloads that occur.
\<close>

definition example_frame1 :: jsstring where
  \<open>example_frame1 = js ''{"choices":[{"delta":{"content":"Hel"}}]}''\<close>

definition example_frame2 :: jsstring where
  \<open>example_frame2 = js ''{"choices":[{"delta":{"content":"lo"}}],"usage":{"completion_tokens":2},"user_tier":"seed"}''\<close>

definition example_usage :: json where
  "example_usage = JObj [(js ''completion_tokens'', JNum 2)]"

definition example_parse :: "jsstring \<Rightarrow> json option" where
  "example_parse s =
     (if s = example_frame1 then
        Some (JObj [(js ''choices'',
                JArr [JObj [(js ''delta'', JObj [(js ''content'', JStr (js ''Hel''))])]])])
      else if s = example_frame2 then
        Some (JObj [(js ''choices'',
                JArr [JObj [(js ''delta'', JObj [(js ''content'', JStr (js ''lo''))])]]),
              (js ''usage'', example_usage),
              (js ''user_tier'', JStr (js ''seed''))])
      else None)"

definition example_chunks :: "jsstring list" where
  \<open>example_chunks =
     [js ''data: '' @ example_frame1 @ [10] @ js ''data: {"choices":[{"delta"'' @ [10] @ js ''da'',
      js ''ta: '' @ example_frame2 @ [10, 10] @ js ''data: [DO'',
      js ''NE]'' @ [10] @ js ''data: '' @ example_frame1 @ [10]]\<close>

definition example_reads :: "read list" where
  "example_reads = map Data example_chunks"

definition example_response :: Response where
  "example_response =
     \<lparr>ok = True, status = 200, contentType = Some (js ''text/event-stream''), jsonBody = None,
      body = Some example_reads\<rparr>"

text \<open>The same stream when the connection is lost after the third read.\<close>

definition example_lost :: Response where
  "example_lost =
     example_response\<lparr>body := Some (map Data example_chunks @ [ReadFails (OtherError (js ''network error''))])\<rparr>"

text \<open>A page showing the session \<open>s1\<close> with the log [user: hi, assistant: hello].\<close>

definition example_model :: PollinationsModel where
  "example_model = \<lparr>m_name = js ''openai'', m_type = TextModel, m_pricing = None\<rparr>"

definition example_hi :: "ChatSession list" where
  "example_hi =
     [example_session (js ''s1'')
        [example_message (js ''u1'') User (js ''hi''),
         example_message (js ''a1'') Assistant (js ''hello'')]]"

definition example_state :: AppState where
  "example_state =
     \<lparr>sessions = example_hi, activeSessionId = Some (js ''s1''),
      selectedModel = Some example_model, isStreaming = False, balance = None,
      settings = \<lparr>autoFetchUsage = True, autoReadBalance = True, systemPrompt = []\<rparr>\<rparr>"

definition example_env :: SendEnv where
  "example_env =
     \<lparr>e_sessionId = js ''s9'', e_sessionCreatedAt = 2000, e_sessionUpdatedAt = 2000,
      e_userMsgId = js ''u2'', e_userMsgTime = 2000, e_addUserTime = 2000,
      e_assistantId = js ''a2'', e_assistantTime = 2000, e_addAssistantTime = 2000\<rparr>"



text \<open>
  \<open>JSON.stringify\<close> and \<open>JSON.parse\<close> on the one value \<open>data\<close> that an example exports:
  \<open>importJSON\<close> never looks into the text, so a label stands for the text of \<open>data\<close>.
\<close>

definition label_stringify :: "json \<Rightarrow> json \<Rightarrow> jsstring" where
  "label_stringify data v = (if v = data then js ''export.json'' else [])"

definition label_parse :: "json \<Rightarrow> jsstring \<Rightarrow> json option" where
  "label_parse data raw = (if raw = js ''export.json'' then Some data else None)"

definition example_exportedAt :: jsstring where
  "example_exportedAt = js ''2026-01-01T00:00:00.000Z''"

text \<open>A session whose id is the empty string.\<close>

definition example_no_id :: ChatSession where
  "example_no_id = example_session [] [example_message (js ''A'') User (js ''one'')]"

section \<open>The cost rule in the words of the specification\<close>

text \<open>
  The specification's account of \<open>computePollenCost\<close>, to be compared with the function
  above: the input cost is the sum of the text and audio input rates that are present,
  each times \<open>inputTokens\<close>; the output cost comes from the first applicable field of a
  fixed precedence list, a field being applicable when it is present and not zero.
\<close>

definition spec_inputCost :: "pricing \<Rightarrow> rat \<Rightarrow> rat" where
  "spec_inputCost p inputTokens =
     (\<Sum>rate \<leftarrow> [promptTextTokens p, promptAudioTokens p].
        case rate of None \<Rightarrow> 0 | Some r \<Rightarrow> r * inputTokens)"

definition output_precedence :: "pricing \<Rightarrow> rat \<Rightarrow> (rat option \<times> (rat \<Rightarrow> rat)) list" where
  "output_precedence p outputTokens =
     [(completionTextTokens p, \<lambda>r. r * outputTokens),
      (completionImageTokens p, \<lambda>r. r),
      (completionVideoSeconds p, \<lambda>r. r * 5),
      (completionVideoTokens p, \<lambda>r. r * outputTokens),
      (completionAudioTokens p, \<lambda>r. r * outputTokens),
      (completionAudioSeconds p, \<lambda>r. r * 10)]"

definition spec_outputCost :: "pricing \<Rightarrow> rat \<Rightarrow> rat" where
  "spec_outputCost p outputTokens =
     (case find (\<lambda>(rate, charge). truthy_num rate) (output_precedence p outputTokens) of
        None \<Rightarrow> 0
      | Some (rate, charge) \<Rightarrow> charge (the rate))"

definition example_pricing :: pricing where
  "example_pricing =
     \<lparr>promptTextTokens = Some (1 / 1000), promptAudioTokens = None,
      completionTextTokens = Some (2 / 1000), completionImageTokens = None,
      completionVideoSeconds = None, completionVideoTokens = None,
      completionAudioSeconds = None, completionAudioTokens = None\<rparr>"

section \<open>Vocabulary of the properties\<close>

text \<open>
  The log in which every message with the given id has the three fields a stream writes
  (\<open>content\<close>, \<open>tokensUsed\<close>, \<open>isPartial\<close>) set to the given values, and every other
  message is as before.
\<close>

definition with_streamed :: "jsstring \<Rightarrow> jsstring \<Rightarrow> int option \<Rightarrow> bool option \<Rightarrow> ChatMessage list \<Rightarrow> ChatMessage list" where
  "with_streamed messageId c k b ms =
     map (\<lambda>m. if msg_id m = messageId then m\<lparr>content := c, tokensUsed := k, isPartial := b\<rparr> else m) ms"

text \<open>The calls \<open>onChunk(d)\<close> for a list of deltas, each with the time of the call.\<close>

definition chunk_calls :: "(int \<times> jsstring) list \<Rightarrow> callback list" where
  "chunk_calls deltas = map (\<lambda>(t, d). OnChunk t d) deltas"

text \<open>
  The variables \<open>lastUsage\<close> and \<open>lastTier\<close> after a frame \<open>j\<close> has been seen: each
  takes the frame's value when the frame carries one, and keeps its own otherwise.
\<close>

definition observe :: "StreamVars \<Rightarrow> json \<Rightarrow> StreamVars" where
  "observe v j =
     \<lparr>lastUsage = (if truthy (js_prop j (js ''usage'')) then js_prop j (js ''usage'') else lastUsage v),
      lastTier = (if truthy (js_prop j (js ''user_tier'')) then js_prop j (js ''user_tier'')
                  else lastTier v)\<rparr>"

text \<open>The text delta of a frame: \<open>json.choices?.[0]?.delta?.content\<close>.\<close>

definition frame_delta :: "json \<Rightarrow> json option" where
  "frame_delta j =
     opt_prop (opt_prop (opt_index0 (js_prop j (js ''choices''))) (js ''delta'')) (js ''content'')"

text \<open>A response that passes the checks made before the body is read.\<close>

definition readable :: "Response \<Rightarrow> read list \<Rightarrow> bool" where
  "readable res reads \<longleftrightarrow>
     ok res \<and> body res = Some reads \<and>
     \<not> (includes_js (case contentType res of None \<Rightarrow> [] | Some c \<Rightarrow> c) (js ''application/json'')
        \<and> \<not> includes_js (case contentType res of None \<Rightarrow> [] | Some c \<Rightarrow> c) (js ''stream''))"


text \<open>
  The lines of a text that are complete: the pieces of \<open>split('\n')\<close> but the last, which
  no line feed has ended yet.
\<close>

definition complete_lines :: "jsstring \<Rightarrow> jsstring list" where
  "complete_lines s = butlast (split_nl s)"

text \<open>The lines before the first that trims to the marker \<open>data: [DONE]\<close>.\<close>

definition before_marker :: "jsstring list \<Rightarrow> jsstring list" where
  "before_marker lines = takeWhile (\<lambda>l. trim l \<noteq> js ''data: [DONE]'') lines"

text \<open>
  The frame a line carries: the value of its payload, when the line trims to \<open>data: \<close>
  and a payload that \<open>JSON.parse\<close> accepts and that is not \<open>null\<close>.
\<close>

definition frame_of :: "(jsstring \<Rightarrow> json option) \<Rightarrow> jsstring \<Rightarrow> json option" where
  "frame_of parse line =
     (if take 6 (trim line) = js ''data: '' then
        (case parse (drop 6 (trim line)) of
           None \<Rightarrow> None
         | Some j \<Rightarrow> if j = JNull then None else Some j)
      else None)"

text \<open>
  The frames of a stream received in the given chunks, in order: those of the complete
  lines of the whole text that come before the marker.
\<close>

definition stream_frames :: "(jsstring \<Rightarrow> json option) \<Rightarrow> jsstring list \<Rightarrow> json list" where
  "stream_frames parse chunks =
     List.map_filter (frame_of parse) (before_marker (complete_lines (concat chunks)))"

text \<open>The \<open>onChunk\<close> calls for a list of frames: one for each frame with a delta.\<close>

definition delta_events :: "json list \<Rightarrow> event list" where
  "delta_events frames =
     concat (map (\<lambda>j. if truthy (frame_delta j) then [Chunk (the (frame_delta j))] else []) frames)"

text \<open>
  The last value of the property \<open>k\<close> observed in a list of frames: that of the last
  frame where it is present (truthy), and \<open>undefined\<close> when there is no such frame.
\<close>

definition last_seen :: "jsstring \<Rightarrow> json list \<Rightarrow> json option" where
  "last_seen k frames =
     (if filter (\<lambda>j. truthy (js_prop j k)) frames = [] then None
      else js_prop (last (filter (\<lambda>j. truthy (js_prop j k)) frames)) k)"
section \<open>The page (component \<open>ChatPage\<close>): the events that reach \<open>handleSend\<close>\<close>








section \<open>Properties of the session store\<close>

lemma findIndex_None: "findIndex p xs = None \<longleftrightarrow> (\<forall>x \<in> set xs. \<not> p x)"
  by (induction xs) (auto split: option.splits)

lemma findIndex_Some:
  "findIndex p xs = Some i \<longleftrightarrow> i < length xs \<and> p (xs ! i) \<and> (\<forall>j < i. \<not> p (xs ! j))"
proof (induction xs arbitrary: i)
  case Nil
  then show ?case by simp
next
  case (Cons x xs)
  show ?case
  proof (cases "p x")
    case True
    then show ?thesis by (cases i) auto
  next
    case False
    show ?thesis
    proof (cases i)
      case 0
      with False show ?thesis by (auto split: option.splits)
    next
      case (Suc k)
      have "(\<forall>j < Suc k. \<not> p ((x # xs) ! j)) \<longleftrightarrow> (\<forall>j < k. \<not> p (xs ! j))"
        using False by (auto simp: less_Suc_eq_0_disj)
      with Suc False Cons.IH [of k] show ?thesis
        by (auto split: option.splits)
    qed
  qed
qed

lemma js_simps [simp]: "js [] = []" "js (c # cs) = of_char c # js cs"
  by (simp_all add: js_def)

text \<open>
  C6. \<open>deleteMessagesFrom\<close> (the spec's \<open>truncateFrom\<close>), on a session of the store whose
  id is the given one: if some message has the id \<open>messageId\<close> and the first such message
  is at index \<open>i\<close>, the log becomes its first \<open>i\<close> messages, unchanged and in order; if no
  message has that id, the whole session is left as it was. Nothing is assumed about the
  ids of the messages.
\<close>

theorem deleteMessagesFrom_truncates:
  assumes "k < length prev" and "sess_id (prev ! k) = sessionId"
  shows "(\<forall>i < length (messages (prev ! k)).
            msg_id (messages (prev ! k) ! i) = messageId \<and>
            (\<forall>j < i. msg_id (messages (prev ! k) ! j) \<noteq> messageId) \<longrightarrow>
            messages (deleteMessagesFrom now sessionId messageId prev ! k)
              = take i (messages (prev ! k)))
       \<and> ((\<forall>m \<in> set (messages (prev ! k)). msg_id m \<noteq> messageId) \<longrightarrow>
            deleteMessagesFrom now sessionId messageId prev ! k = prev ! k)"
proof (intro conjI allI impI)
  fix i
  assume "i < length (messages (prev ! k))"
    and "msg_id (messages (prev ! k) ! i) = messageId \<and>
         (\<forall>j < i. msg_id (messages (prev ! k) ! j) \<noteq> messageId)"
  then have "findIndex (\<lambda>m. msg_id m = messageId) (messages (prev ! k)) = Some i"
    by (simp add: findIndex_Some)
  with assms
  show "messages (deleteMessagesFrom now sessionId messageId prev ! k) = take i (messages (prev ! k))"
    by (simp add: deleteMessagesFrom_def)
next
  assume "\<forall>m \<in> set (messages (prev ! k)). msg_id m \<noteq> messageId"
  then have "findIndex (\<lambda>m. msg_id m = messageId) (messages (prev ! k)) = None"
    by (simp add: findIndex_None)
  with assms show "deleteMessagesFrom now sessionId messageId prev ! k = prev ! k"
    by (simp add: deleteMessagesFrom_def)
qed

theorem deleteMessagesFrom_truncates_witness:
  "messages (deleteMessagesFrom 2000 (js ''s1'') (js ''C'') example_store ! 0)
     = [example_message (js ''A'') User (js ''one''), example_message (js ''B'') Assistant (js ''two'')]
   \<and> deleteMessagesFrom 2000 (js ''s1'') (js ''Z'') example_store ! 0 = example_store ! 0"
proof -
  have h1: "0 < length example_store" by (simp add: example_store_def)
  have h2: "sess_id (example_store ! 0) = js ''s1''"
    by (simp add: example_store_def example_session_def)
  have ms: "messages (example_store ! 0) = example_abcd"
    by (simp add: example_store_def example_session_def)
  have c: "2 < length example_abcd" "msg_id (example_abcd ! 2) = js ''C''"
    "\<forall>j < 2. msg_id (example_abcd ! j) \<noteq> js ''C''"
    by (simp_all add: example_abcd_def example_message_def less_2_cases_iff)
  have z: "\<forall>m \<in> set example_abcd. msg_id m \<noteq> js ''Z''"
    by (simp add: example_abcd_def example_message_def)
  from deleteMessagesFrom_truncates [OF h1 h2, of "js ''C''" 2000] c
  have "messages (deleteMessagesFrom 2000 (js ''s1'') (js ''C'') example_store ! 0) = take 2 example_abcd"
    by (simp add: ms)
  moreover from deleteMessagesFrom_truncates [OF h1 h2, of "js ''Z''" 2000] z
  have "deleteMessagesFrom 2000 (js ''s1'') (js ''Z'') example_store ! 0 = example_store ! 0"
    by (simp add: ms)
  ultimately show ?thesis by (simp add: example_abcd_def)
qed

text \<open>
  A log in which an id occurs twice (such a log can enter the store through an import,
  which does not check the ids of messages): the message at index 3 has the id \<open>B\<close>, yet
  truncating from \<open>B\<close> keeps one message, not the three before index 3.
\<close>

theorem deleteMessagesFrom_duplicate_counterexample:
  "3 < length (messages (example_duplicates ! 0))
   \<and> msg_id (messages (example_duplicates ! 0) ! 3) = js ''B''
   \<and> messages (deleteMessagesFrom 2000 (js ''s1'') (js ''B'') example_duplicates ! 0)
       = [example_message (js ''A'') User (js ''one'')]
   \<and> messages (deleteMessagesFrom 2000 (js ''s1'') (js ''B'') example_duplicates ! 0)
       \<noteq> take 3 (messages (example_duplicates ! 0))"
  by (simp add: example_duplicates_def example_session_def example_message_def
        deleteMessagesFrom_def)

text \<open>
  C10. \<open>addMessage\<close>, \<open>updateMessage\<close>, \<open>deleteMessage\<close> and \<open>deleteMessagesFrom\<close> keep
  the number of sessions and the sequence of their ids, and return every session whose id
  differs from the given \<open>sessionId\<close> exactly as it was.
\<close>

theorem store_operations_frame:
  "(length (addMessage now sessionId message prev) = length prev \<and>
    map sess_id (addMessage now sessionId message prev) = map sess_id prev \<and>
    (\<forall>k < length prev. sess_id (prev ! k) \<noteq> sessionId \<longrightarrow>
       addMessage now sessionId message prev ! k = prev ! k))
 \<and> (length (updateMessage now sessionId messageId update prev) = length prev \<and>
    map sess_id (updateMessage now sessionId messageId update prev) = map sess_id prev \<and>
    (\<forall>k < length prev. sess_id (prev ! k) \<noteq> sessionId \<longrightarrow>
       updateMessage now sessionId messageId update prev ! k = prev ! k))
 \<and> (length (deleteMessage now sessionId messageId prev) = length prev \<and>
    map sess_id (deleteMessage now sessionId messageId prev) = map sess_id prev \<and>
    (\<forall>k < length prev. sess_id (prev ! k) \<noteq> sessionId \<longrightarrow>
       deleteMessage now sessionId messageId prev ! k = prev ! k))
 \<and> (length (deleteMessagesFrom now sessionId messageId prev) = length prev \<and>
    map sess_id (deleteMessagesFrom now sessionId messageId prev) = map sess_id prev \<and>
    (\<forall>k < length prev. sess_id (prev ! k) \<noteq> sessionId \<longrightarrow>
       deleteMessagesFrom now sessionId messageId prev ! k = prev ! k))"
proof (intro conjI)
  show "length (addMessage now sessionId message prev) = length prev"
    and "length (updateMessage now sessionId messageId update prev) = length prev"
    and "length (deleteMessage now sessionId messageId prev) = length prev"
    and "length (deleteMessagesFrom now sessionId messageId prev) = length prev"
    by (simp_all add: addMessage_def updateMessage_def deleteMessage_def deleteMessagesFrom_def)
  show "map sess_id (addMessage now sessionId message prev) = map sess_id prev"
    and "map sess_id (updateMessage now sessionId messageId update prev) = map sess_id prev"
    and "map sess_id (deleteMessage now sessionId messageId prev) = map sess_id prev"
    by (simp_all add: addMessage_def updateMessage_def deleteMessage_def)
  show "map sess_id (deleteMessagesFrom now sessionId messageId prev) = map sess_id prev"
    by (auto simp: deleteMessagesFrom_def split: option.splits)
  show "\<forall>k < length prev. sess_id (prev ! k) \<noteq> sessionId \<longrightarrow>
          addMessage now sessionId message prev ! k = prev ! k"
    and "\<forall>k < length prev. sess_id (prev ! k) \<noteq> sessionId \<longrightarrow>
          updateMessage now sessionId messageId update prev ! k = prev ! k"
    and "\<forall>k < length prev. sess_id (prev ! k) \<noteq> sessionId \<longrightarrow>
          deleteMessage now sessionId messageId prev ! k = prev ! k"
    and "\<forall>k < length prev. sess_id (prev ! k) \<noteq> sessionId \<longrightarrow>
          deleteMessagesFrom now sessionId messageId prev ! k = prev ! k"
    by (simp_all add: addMessage_def updateMessage_def deleteMessage_def deleteMessagesFrom_def)
qed

theorem store_operations_frame_witness:
  "addMessage 2000 (js ''s1'') (example_message (js ''E'') User (js ''five'')) example_store ! 1
     = example_store ! 1
   \<and> updateMessage 2000 (js ''s1'') (js ''B'') (no_update\<lparr>u_content := Some (js ''new'')\<rparr>)
       example_store ! 1 = example_store ! 1
   \<and> deleteMessage 2000 (js ''s1'') (js ''B'') example_store ! 1 = example_store ! 1
   \<and> deleteMessagesFrom 2000 (js ''s1'') (js ''B'') example_store ! 1 = example_store ! 1
   \<and> length (deleteMessagesFrom 2000 (js ''s1'') (js ''B'') example_store) = 2"
proof -
  have h1: "1 < length example_store" by (simp add: example_store_def)
  have h2: "sess_id (example_store ! 1) \<noteq> js ''s1''"
    by (simp add: example_store_def example_session_def)
  have len: "length example_store = 2" by (simp add: example_store_def)
  show ?thesis
    using h1 h2 len
      store_operations_frame [of 2000 "js ''s1''" "example_message (js ''E'') User (js ''five'')"
        example_store "js ''B''" "no_update\<lparr>u_content := Some (js ''new'')\<rparr>"]
    by simp
qed

section \<open>Properties of the cost estimator\<close>

lemma split_ws_ws:
  "is_ws c \<Longrightarrow> split_ws (c # cs) = split_ws cs \<or> split_ws (c # cs) = [] # split_ws cs"
  by (simp split: list.split)

lemma split_ws_nonempty: "split_ws s \<noteq> []"
proof (induction s)
  case Nil
  show ?case by simp
next
  case (Cons c cs)
  show ?case
  proof (cases "is_ws c")
    case True
    from split_ws_ws [OF True, of cs] Cons show ?thesis by auto
  next
    case False
    then show ?thesis by (simp split: list.split)
  qed
qed

lemma split_ws_concat: "concat (split_ws s) = filter (\<lambda>c. \<not> is_ws c) s"
proof (induction s)
  case Nil
  show ?case by simp
next
  case (Cons c cs)
  show ?case
  proof (cases "is_ws c")
    case True
    from split_ws_ws [OF True, of cs] have "concat (split_ws (c # cs)) = concat (split_ws cs)"
      by auto
    with True Cons show ?thesis by simp
  next
    case False
    obtain p ps where "split_ws cs = p # ps"
      using split_ws_nonempty [of cs] by (cases "split_ws cs") auto
    with False Cons show ?thesis by simp
  qed
qed

lemma split_ws_no_ws: "p \<in> set (split_ws text) \<Longrightarrow> c \<in> set p \<Longrightarrow> \<not> is_ws c"
proof -
  assume "p \<in> set (split_ws text)" and "c \<in> set p"
  then have "c \<in> set (concat (split_ws text))" by auto
  then show ?thesis by (simp add: split_ws_concat)
qed

text \<open>
  The words counted are non-empty, free of white space, and together they are the text
  without its white space.
\<close>

lemma words_characterisation:
  "concat (words text) = filter (\<lambda>c. \<not> is_ws c) text"
  "w \<in> set (words text) \<Longrightarrow> w \<noteq> [] \<and> (\<forall>c \<in> set w. \<not> is_ws c)"
proof -
  have "concat (filter (\<lambda>w. w \<noteq> []) xs) = concat xs" for xs :: "jsstring list"
    by (induction xs) auto
  then show "concat (words text) = filter (\<lambda>c. \<not> is_ws c) text"
    by (simp add: words_def split_ws_concat)
  show "w \<in> set (words text) \<Longrightarrow> w \<noteq> [] \<and> (\<forall>c \<in> set w. \<not> is_ws c)"
    by (auto simp: words_def dest: split_ws_no_ws)
qed

lemma charEstimate_pos: "text \<noteq> [] \<Longrightarrow> 1 \<le> charEstimate text"
proof -
  assume "text \<noteq> []"
  then have "0 < rat_of_nat (length text) / 4" by simp
  then show ?thesis unfolding charEstimate_def by linarith
qed

text \<open>
  C8. \<open>estimateTokens\<close> returns 0 for the empty string. For a non-empty string it returns
  the greatest of three numbers: the word estimate, which is the number of words times 1.3
  plus 0.5 for each character that is neither alphanumeric nor white space, the sum rounded
  up; the character estimate, a quarter of the length rounded up; and 1. So the result is
  at least 1, at least the character estimate and at least the word estimate. Being a
  function of the text alone, it is deterministic.
\<close>

theorem estimateTokens_spec:
  "estimateTokens [] = 0 \<and>
   (text \<noteq> [] \<longrightarrow>
      estimateTokens text =
        max (max \<lceil>rat_of_nat (length (filter (\<lambda>w. w \<noteq> []) (split_ws text))) * (13 / 10)
                   + rat_of_nat (length (filter (\<lambda>c. \<not> is_alnum c \<and> \<not> is_ws c) text)) * (1 / 2)\<rceil>
                 \<lceil>rat_of_nat (length text) / 4\<rceil>) 1
      \<and> 1 \<le> estimateTokens text
      \<and> \<lceil>rat_of_nat (length text) / 4\<rceil> \<le> estimateTokens text
      \<and> wordEstimate text \<le> estimateTokens text)"
proof -
  have "1 \<le> max (max a b) 1 \<and> b \<le> max (max a b) 1 \<and> a \<le> max (max a b) 1" for a b :: int
    by (simp add: le_max_iff_disj)
  then show ?thesis
    unfolding estimateTokens_def wordEstimate_def charEstimate_def words_def specialChars_def
    by simp
qed

theorem estimateTokens_spec_witness:
  "js ''hello world!'' \<noteq> [] \<and> estimateTokens (js ''hello world!'') = 4
   \<and> 1 \<le> estimateTokens (js ''hello world!'')"
proof -
  have ne: "js ''hello world!'' \<noteq> []" by simp
  have w: "length (filter (\<lambda>w. w \<noteq> []) (split_ws (js ''hello world!''))) = 2"
    by (simp add: is_ws_def)
  have s: "length (filter (\<lambda>c. \<not> is_alnum c \<and> \<not> is_ws c) (js ''hello world!'')) = 1"
    by (simp add: is_ws_def is_alnum_def)
  have l: "length (js ''hello world!'') = 12" by simp
  have e: "max (max \<lceil>rat_of_nat 2 * (13 / 10) + rat_of_nat 1 * (1 / 2)\<rceil> \<lceil>rat_of_nat 12 / 4\<rceil>) 1 = (4::int)"
    by (simp add: ceiling_eq_iff)
  from estimateTokens_spec [of "js ''hello world!''"] ne
  have "estimateTokens (js ''hello world!'') =
      max (max \<lceil>rat_of_nat (length (filter (\<lambda>w. w \<noteq> []) (split_ws (js ''hello world!'')))) * (13 / 10)
                 + rat_of_nat (length (filter (\<lambda>c. \<not> is_alnum c \<and> \<not> is_ws c) (js ''hello world!''))) * (1 / 2)\<rceil>
               \<lceil>rat_of_nat (length (js ''hello world!'')) / 4\<rceil>) 1"
    by blast
  then have "estimateTokens (js ''hello world!'') = 4"
    unfolding w s l e .
  with ne show ?thesis by simp
qed

lemma spec_outputCost_eq: "spec_outputCost p outputTokens = outputCost p outputTokens"
  by (simp add: spec_outputCost_def output_precedence_def outputCost_def)

lemma spec_inputCost_eq: "spec_inputCost p inputTokens = inputCost p inputTokens"
  by (auto simp: spec_inputCost_def inputCost_def truthy_num_def split: option.splits)

text \<open>
  C7. Without pricing \<open>computePollenCost\<close> returns \<open>MIN_POLLEN_PER_PROMPT\<close>, which is
  0.00004 = 1/25000. With pricing it returns the greater of that floor and the sum of the
  input cost (the text and the audio input rate, each times \<open>inputTokens\<close>, when present)
  and the output cost (the charge of the first applicable field in the order text per
  token, image flat, video seconds times 5, video per token, audio per token, audio seconds
  times 10). The result is never below the floor, whatever the arguments.
\<close>

theorem computePollenCost_spec:
  "computePollenCost None inputTokens outputTokens = 4 / 100000
   \<and> MIN_POLLEN_PER_PROMPT = 1 / 25000
   \<and> computePollenCost (Some p) inputTokens outputTokens
       = max MIN_POLLEN_PER_PROMPT (spec_inputCost p inputTokens + spec_outputCost p outputTokens)
   \<and> 4 / 100000 \<le> computePollenCost pr inputTokens outputTokens"
  by (cases pr)
     (simp_all add: computePollenCost_def MIN_POLLEN_PER_PROMPT_def spec_inputCost_eq
        spec_outputCost_eq max.commute)

theorem computePollenCost_spec_witness:
  "computePollenCost (Some example_pricing) 500 200 = 9 / 10
   \<and> computePollenCost (Some (example_pricing\<lparr>completionTextTokens := Some 0,
         completionImageTokens := Some (5 / 100)\<rparr>)) 100 1 = 15 / 100"
proof -
  let ?img = "example_pricing\<lparr>completionTextTokens := Some 0, completionImageTokens := Some (5 / 100)\<rparr>"
  have i1: "spec_inputCost example_pricing 500 = 1 / 2"
    by (simp add: example_pricing_def spec_inputCost_def)
  have o1: "spec_outputCost example_pricing 200 = 2 / 5"
    by (simp add: example_pricing_def spec_outputCost_def output_precedence_def truthy_num_def)
  have m1: "max MIN_POLLEN_PER_PROMPT (1 / 2 + 2 / 5) = 9 / 10"
    by (simp add: MIN_POLLEN_PER_PROMPT_def)
  have i2: "spec_inputCost ?img 100 = 1 / 10"
    by (simp add: example_pricing_def spec_inputCost_def)
  have o2: "spec_outputCost ?img 1 = 5 / 100"
    by (simp add: example_pricing_def spec_outputCost_def output_precedence_def truthy_num_def)
  have m2: "max MIN_POLLEN_PER_PROMPT (1 / 10 + 5 / 100) = 15 / 100"
    by (simp add: MIN_POLLEN_PER_PROMPT_def)
  from computePollenCost_spec [of 500 200 example_pricing None]
  have "computePollenCost (Some example_pricing) 500 200
          = max MIN_POLLEN_PER_PROMPT (spec_inputCost example_pricing 500 + spec_outputCost example_pricing 200)"
    by (elim conjE)
  then have r1: "computePollenCost (Some example_pricing) 500 200 = 9 / 10"
    by (simp only: i1 o1 m1)
  from computePollenCost_spec [of 100 1 ?img None]
  have "computePollenCost (Some ?img) 100 1
          = max MIN_POLLEN_PER_PROMPT (spec_inputCost ?img 100 + spec_outputCost ?img 1)"
    by (elim conjE)
  then have r2: "computePollenCost (Some ?img) 100 1 = 15 / 100"
    by (simp only: i2 o2 m2)
  from r1 r2 show ?thesis by (intro conjI)
qed

section \<open>Properties of the text path\<close>

lemma find_map_sess:
  assumes "\<And>s. sess_id (f s) = sess_id s"
  shows "find (\<lambda>s. sess_id s = sid) (map f xs) = map_option f (find (\<lambda>s. sess_id s = sid) xs)"
  using assms by (induction xs) auto

lemma merge_stream_update:
  "merge_update m (no_update\<lparr>u_content := Some c, u_tokensUsed := Some k, u_isPartial := Some b\<rparr>)
     = m\<lparr>content := c, tokensUsed := Some k, isPartial := Some b\<rparr>"
  by (simp add: merge_update_def no_update_def overwrite_def overwrite_opt_def)

lemma activeSession_updateMessage:
  "activeSession (updateMessage now sid aid u store) (Some sid) =
     map_option (\<lambda>s. s\<lparr>messages := map (\<lambda>m. if msg_id m = aid then merge_update m u else m) (messages s),
                        updatedAt := now\<rparr>)
       (activeSession store (Some sid))"
proof -
  let ?f = "\<lambda>s. if sess_id s \<noteq> sid then s
              else s\<lparr>messages := map (\<lambda>m. if msg_id m = aid then merge_update m u else m) (messages s),
                     updatedAt := now\<rparr>"
  have "find (\<lambda>s. sess_id s = sid) (map ?f store) = map_option ?f (find (\<lambda>s. sess_id s = sid) store)"
    by (rule find_map_sess) simp
  moreover have "map_option ?f (find (\<lambda>s. sess_id s = sid) store)
      = map_option (\<lambda>s. s\<lparr>messages := map (\<lambda>m. if msg_id m = aid then merge_update m u else m) (messages s),
                        updatedAt := now\<rparr>) (find (\<lambda>s. sess_id s = sid) store)"
    by (cases "find (\<lambda>s. sess_id s = sid) store") (auto dest: find_Some_iff [THEN iffD1])
  ultimately show ?thesis
    by (simp add: activeSession_def updateMessage_def)
qed

lemma activeSession_stream_update:
  assumes "activeSession store (Some sid) = Some s"
  shows "activeSession (updateMessage now sid aid
            (no_update\<lparr>u_content := Some c, u_tokensUsed := Some k, u_isPartial := Some b\<rparr>) store)
           (Some sid)
         = Some (s\<lparr>messages := with_streamed aid c (Some k) (Some b) (messages s), updatedAt := now\<rparr>)"
proof -
  have "map (\<lambda>m. if msg_id m = aid
                 then merge_update m (no_update\<lparr>u_content := Some c, u_tokensUsed := Some k,
                                                 u_isPartial := Some b\<rparr>)
                 else m) ms
        = with_streamed aid c (Some k) (Some b) ms" for ms
    unfolding with_streamed_def merge_stream_update ..
  with assms show ?thesis
    by (simp add: activeSession_updateMessage)
qed

text \<open>Writing the three streamed fields twice is writing the later values once.\<close>

lemma with_streamed_twice:
  "with_streamed aid c2 k2 b2 (with_streamed aid c1 k1 b1 ms) = with_streamed aid c2 k2 b2 ms"
  unfolding with_streamed_def by (induction ms) auto

lemma run_callbacks_append:
  "run_callbacks sid aid (xs @ ys) r = run_callbacks sid aid ys (run_callbacks sid aid xs r)"
proof (induction xs arbitrary: r)
  case Nil
  show ?case by simp
next
  case (Cons x xs)
  then show ?case by (cases x) simp_all
qed

lemma onChunk_session:
  assumes "activeSession (r_sessions r) (Some sid) = Some s" and "accum r @ d = a"
  shows "activeSession (r_sessions (onChunk t sid aid d r)) (Some sid) =
           Some (s\<lparr>messages := with_streamed aid a (Some (estimateTokens a)) (Some True) (messages s),
                    updatedAt := t\<rparr>)"
    and "accum (onChunk t sid aid d r) = a"
  using assms(2) activeSession_stream_update [OF assms(1)]
  by (simp_all add: onChunk_def)

lemma onDone_session:
  assumes "activeSession (r_sessions r) (Some sid) = Some s" and "accum r = a"
  shows "activeSession (r_sessions (onDone t sid aid usage r)) (Some sid) =
           Some (s\<lparr>messages := with_streamed aid a
                      (Some (case usage of None \<Rightarrow> estimateTokens a | Some u \<Rightarrow> completion_tokens u))
                      (Some False) (messages s),
                    updatedAt := t\<rparr>)"
  using activeSession_stream_update [OF assms(1)]
  unfolding assms(2) [symmetric] by (simp add: onDone_def)

lemma run_chunks:
  assumes "activeSession (r_sessions r) (Some sid) = Some s"
  shows "accum (run_callbacks sid aid (chunk_calls ds) r) = accum r @ concat (map snd ds)
       \<and> (ds \<noteq> [] \<longrightarrow>
          activeSession (r_sessions (run_callbacks sid aid (chunk_calls ds) r)) (Some sid) =
            Some (s\<lparr>messages := with_streamed aid (accum r @ concat (map snd ds))
                       (Some (estimateTokens (accum r @ concat (map snd ds)))) (Some True) (messages s),
                    updatedAt := fst (last ds)\<rparr>))"
  using assms
proof (induction ds arbitrary: r s)
  case Nil
  show ?case by (simp add: chunk_calls_def)
next
  case (Cons td ds)
  obtain t d where td: "td = (t, d)" by (cases td)
  let ?r1 = "onChunk t sid aid d r"
  let ?s1 = "s\<lparr>messages := with_streamed aid (accum r @ d) (Some (estimateTokens (accum r @ d)))
                              (Some True) (messages s),
               updatedAt := t\<rparr>"
  have s1: "activeSession (r_sessions ?r1) (Some sid) = Some ?s1"
    and a1: "accum ?r1 = accum r @ d"
    using onChunk_session [OF Cons.prems refl] by blast+
  have unfold: "run_callbacks sid aid (chunk_calls (td # ds)) r = run_callbacks sid aid (chunk_calls ds) ?r1"
    by (simp add: chunk_calls_def td)
  show ?case
  proof (cases "ds = []")
    case True
    with s1 a1 td show ?thesis by (simp add: chunk_calls_def)
  next
    case False
    from Cons.IH [OF s1] False a1 td show ?thesis
      unfolding unfold by (simp add: with_streamed_twice)
  qed
qed

text \<open>
  C2. Let the store hold a session with the given id, and let \<open>streamGeneration\<close> call
  \<open>onChunk\<close> with the text deltas \<open>deltas\<close> (each with the time of its call) and then
  \<open>onDone\<close>. The variable \<open>accum\<close> is the concatenation of the deltas in arrival order,
  with no separator. After the last of one or more \<open>onChunk\<close> calls, every message of the
  session with the placeholder's id holds the accumulated text, \<open>tokensUsed =
  estimateTokens(accum)\<close> and \<open>isPartial = true\<close>; this holds of every prefix of the
  stream, hence after each call. After \<open>onDone\<close> it holds the whole concatenation, the
  server's \<open>completion_tokens\<close> (or the estimate when no usage came) and \<open>isPartial =
  false\<close>. No other message changes.
\<close>

theorem stream_reconciliation:
  assumes "activeSession store (Some sessionId) = Some s"
  shows "accum (run_callbacks sessionId assistantId (chunk_calls deltas)
                  \<lparr>r_sessions = store, accum = []\<rparr>) = concat (map snd deltas)
    \<and> (deltas \<noteq> [] \<longrightarrow>
         activeSession (r_sessions (run_callbacks sessionId assistantId (chunk_calls deltas)
             \<lparr>r_sessions = store, accum = []\<rparr>)) (Some sessionId) =
           Some (s\<lparr>messages := with_streamed assistantId (concat (map snd deltas))
                      (Some (estimateTokens (concat (map snd deltas)))) (Some True) (messages s),
                   updatedAt := fst (last deltas)\<rparr>))
    \<and> activeSession (fst (textGeneration now friendlyMsg sessionId assistantId
             (chunk_calls deltas @ [OnDone doneTime usage]) Resolves store))
           (Some sessionId) =
           Some (s\<lparr>messages := with_streamed assistantId (concat (map snd deltas))
                      (Some (case usage of
                               None \<Rightarrow> estimateTokens (concat (map snd deltas))
                             | Some u \<Rightarrow> completion_tokens u))
                      (Some False) (messages s),
                   updatedAt := doneTime\<rparr>)"
proof -
  let ?init = "\<lparr>r_sessions = store, accum = []\<rparr>"
  let ?run = "run_callbacks sessionId assistantId (chunk_calls deltas) ?init"
  let ?all = "concat (map snd deltas)"
  have s0: "activeSession (r_sessions ?init) (Some sessionId) = Some s"
    using assms by simp
  note chunks = run_chunks [OF s0, of assistantId deltas]
  have acc: "accum ?run = ?all"
    using chunks by simp
  have part: "deltas \<noteq> [] \<longrightarrow>
         activeSession (r_sessions ?run) (Some sessionId) =
           Some (s\<lparr>messages := with_streamed assistantId ?all (Some (estimateTokens ?all)) (Some True)
                                  (messages s),
                   updatedAt := fst (last deltas)\<rparr>)"
    using chunks by simp
  have fin: "activeSession (r_sessions (onDone doneTime sessionId assistantId usage ?run)) (Some sessionId) =
           Some (s\<lparr>messages := with_streamed assistantId ?all
                      (Some (case usage of None \<Rightarrow> estimateTokens ?all | Some u \<Rightarrow> completion_tokens u))
                      (Some False) (messages s),
                   updatedAt := doneTime\<rparr>)"
  proof (cases "deltas = []")
    case True
    then have run: "?run = ?init" by (simp add: chunk_calls_def)
    have "accum ?init = ?all" using True by simp
    from onDone_session [OF s0 this, of doneTime assistantId usage] show ?thesis
      unfolding run .
  next
    case False
    with part have "activeSession (r_sessions ?run) (Some sessionId) =
           Some (s\<lparr>messages := with_streamed assistantId ?all (Some (estimateTokens ?all)) (Some True)
                                  (messages s),
                   updatedAt := fst (last deltas)\<rparr>)" by simp
    from onDone_session [OF this acc, of doneTime assistantId usage] show ?thesis
      by (simp add: with_streamed_twice)
  qed
  have "fst (textGeneration now friendlyMsg sessionId assistantId
               (chunk_calls deltas @ [OnDone doneTime usage]) Resolves store)
          = r_sessions (onDone doneTime sessionId assistantId usage ?run)"
    by (simp add: textGeneration_def run_callbacks_append)
  with acc part fin show ?thesis by simp
qed

theorem stream_reconciliation_witness:
  "activeSession example_chat (Some (js ''s1'')) = Some (hd example_chat)
   \<and> map (\<lambda>m. (msg_id m, content m, isPartial m))
         (messages (the (activeSession (fst (textGeneration 0 [] (js ''s1'') (js ''a1'')
            (chunk_calls [(2000, js ''Hel''), (2001, js ''lo'')] @ [OnDone 2002 None]) Resolves
            example_chat)) (Some (js ''s1'')))))
       = [(js ''u1'', js ''hi'', None), (js ''a1'', js ''Hello'', Some False)]"
proof -
  have h: "activeSession example_chat (Some (js ''s1'')) = Some (hd example_chat)"
    by (simp add: activeSession_def example_chat_def example_session_def)
  have c: "concat (map snd [(2000::int, js ''Hel''), (2001, js ''lo'')]) = js ''Hello''"
    by simp
  have m: "map (\<lambda>m. (msg_id m, content m, isPartial m))
             (with_streamed (js ''a1'') (js ''Hello'') k (Some False) (messages (hd example_chat)))
           = [(js ''u1'', js ''hi'', None), (js ''a1'', js ''Hello'', Some False)]" for k
    by (simp add: with_streamed_def example_chat_def example_session_def example_message_def)
  from stream_reconciliation [OF h, of "js ''a1''" "[(2000, js ''Hel''), (2001, js ''lo'')]" 0 "[]" 2002 None]
  have "activeSession (fst (textGeneration 0 [] (js ''s1'') (js ''a1'')
            (chunk_calls [(2000, js ''Hel''), (2001, js ''lo'')] @ [OnDone 2002 None]) Resolves
            example_chat)) (Some (js ''s1''))
        = Some ((hd example_chat)\<lparr>messages := with_streamed (js ''a1'') (js ''Hello'')
                    (Some (estimateTokens (js ''Hello''))) (Some False) (messages (hd example_chat)),
                  updatedAt := 2002\<rparr>)"
    unfolding c by simp
  then show ?thesis using h m by simp
qed

lemma catchText_after_partial:
  assumes "err \<noteq> AbortError" and "accum r \<noteq> []"
  shows "catchText now friendlyMsg sessionId assistantId err r = r_sessions r"
  using assms by (simp add: catchText_def)

text \<open>
  C3, evaluated on the code. The placeholder \<open>a1\<close> has received the chunk \<open>Hel\<close> when the
  promise rejects with an error that is not \<open>AbortError\<close>. The \<open>catch\<close> block writes
  nothing, since \<open>accum\<close> is not empty: the content stays \<open>Hel\<close> and \<open>isError\<close> stays
  unset, and \<open>isPartial\<close> stays \<open>true\<close>, as the last \<open>onChunk\<close> left it.
\<close>

theorem partial_flag_survives_error:
  "map (\<lambda>m. (msg_id m, content m, isPartial m, isError m))
     (messages (hd (fst (textGeneration 3000 (js ''failed'') (js ''s1'') (js ''a1'')
        (chunk_calls [(2000, js ''Hel'')]) (Rejects (OtherError (js ''network error'')))
        example_chat))))
   = [(js ''u1'', js ''hi'', None, None), (js ''a1'', js ''Hel'', Some True, None)]"
  by (simp add: textGeneration_def chunk_calls_def onChunk_def catchText_def updateMessage_def
      merge_update_def no_update_def overwrite_def overwrite_opt_def
      example_chat_def example_session_def example_message_def)

lemma activeSession_addMessage:
  "activeSession (addMessage now sid msg store) (Some sid) =
     map_option (\<lambda>s. s\<lparr>messages := messages s @ [msg], updatedAt := now,
                        title := (if length (messages s) = 0 \<and> role msg = User
                                  then autoTitle (content msg) else title s)\<rparr>)
       (activeSession store (Some sid))"
proof -
  let ?g = "\<lambda>s. s\<lparr>messages := messages s @ [msg], updatedAt := now,
                     title := (if length (messages s) = 0 \<and> role msg = User
                               then autoTitle (content msg) else title s)\<rparr>"
  let ?f = "\<lambda>s. if sess_id s \<noteq> sid then s else ?g s"
  have "find (\<lambda>s. sess_id s = sid) (map ?f store) = map_option ?f (find (\<lambda>s. sess_id s = sid) store)"
    by (rule find_map_sess) simp
  moreover have "map_option ?f (find (\<lambda>s. sess_id s = sid) store)
      = map_option ?g (find (\<lambda>s. sess_id s = sid) store)"
    by (cases "find (\<lambda>s. sess_id s = sid) store") (auto dest: find_Some_iff [THEN iffD1])
  ultimately show ?thesis
    by (simp add: activeSession_def addMessage_def)
qed

text \<open>
  Where the text path starts: with an active session \<open>s\<close> in the store, \<open>handleSend\<close>
  with a text model has appended the user message and the partial placeholder, in this
  order, when it begins to await the stream.
\<close>

lemma handleSend_text_log:
  assumes "selectedModel st = Some m" and "m_type m = TextModel"
    and "activeSessionId st = Some sid" and "activeSession prev (Some sid) = Some s"
    and "handleSend env st prev txt md atts = Started p"
  shows "p_sessionId p = sid" and "p_assistantId p = e_assistantId env"
    and "\<exists>s'. activeSession (p_sessions p) (Some sid) = Some s' \<and>
              messages s' = messages s @ [userMessage env m txt md atts, placeholder env m TextMode]"
proof -
  have eff: "effectiveMode TextModel md = TextMode"
    by (simp add: effectiveMode_def)
  from assms(5) assms(1-3) eff
  have p: "p = \<lparr>p_sessions = addMessage (e_addAssistantTime env) sid (placeholder env m TextMode)
                   (addMessage (e_addUserTime env) sid (userMessage env m txt md atts) prev),
               p_activeSessionId = Some sid, p_isStreaming = True, p_sessionId = sid,
               p_assistantId = e_assistantId env,
               p_request = TextGen (m_name m) (apiMessages st (userMessage env m txt md atts))\<rparr>"
    by (simp add: handleSend_def Let_def split: if_splits)
  show "p_sessionId p = sid" and "p_assistantId p = e_assistantId env"
    by (simp_all add: p)
  show "\<exists>s'. activeSession (p_sessions p) (Some sid) = Some s' \<and>
              messages s' = messages s @ [userMessage env m txt md atts, placeholder env m TextMode]"
    using assms(4) by (simp add: p activeSession_addMessage)
qed

text \<open>
  The whole text path on a fresh placeholder id: after the deltas and \<open>onDone\<close>, the log
  is the old log, the user message, and the placeholder holding the concatenation of the
  deltas with \<open>isPartial = false\<close>.
\<close>

lemma send_then_stream:
  assumes "selectedModel st = Some m" and "m_type m = TextModel"
    and "activeSessionId st = Some sid" and "activeSession prev (Some sid) = Some s"
    and "handleSend env st prev txt md atts = Started p"
    and "e_assistantId env \<notin> msg_id ` set (messages s)" and "e_assistantId env \<noteq> e_userMsgId env"
  shows "\<exists>s'. activeSession (fst (textGeneration now friendlyMsg (p_sessionId p) (p_assistantId p)
                   (chunk_calls deltas @ [OnDone doneTime usage]) Resolves (p_sessions p)))
                 (Some sid) = Some s' \<and>
              messages s' = messages s @
                [userMessage env m txt md atts,
                 (placeholder env m TextMode)
                   \<lparr>content := concat (map snd deltas),
                    tokensUsed := Some (case usage of
                                          None \<Rightarrow> estimateTokens (concat (map snd deltas))
                                        | Some u \<Rightarrow> completion_tokens u),
                    isPartial := Some False\<rparr>]"
proof -
  from handleSend_text_log [OF assms(1-5)] obtain s0
    where ids: "p_sessionId p = sid" "p_assistantId p = e_assistantId env"
      and s0: "activeSession (p_sessions p) (Some sid) = Some s0"
      and log: "messages s0 = messages s @ [userMessage env m txt md atts, placeholder env m TextMode]"
    by blast
  have "a \<notin> msg_id ` set ms \<Longrightarrow> with_streamed a c k b ms = ms" for a c k b ms
    unfolding with_streamed_def by (induction ms) auto
  with assms(6)
  have old: "with_streamed (e_assistantId env) c k b (messages s) = messages s" for c k b
    by blast
  have new: "with_streamed (e_assistantId env) c k b
               [userMessage env m txt md atts, placeholder env m TextMode]
             = [userMessage env m txt md atts,
                (placeholder env m TextMode)\<lparr>content := c, tokensUsed := k, isPartial := b\<rparr>]" for c k b
    using assms(7) by (simp add: with_streamed_def userMessage_def placeholder_def)
  have split: "with_streamed a c k b (xs @ ys) = with_streamed a c k b xs @ with_streamed a c k b ys"
    for a c k b xs ys
    by (simp add: with_streamed_def)
  let ?run = "run_callbacks sid (e_assistantId env) (chunk_calls deltas)
                \<lparr>r_sessions = p_sessions p, accum = []\<rparr>"
  have init: "activeSession (r_sessions \<lparr>r_sessions = p_sessions p, accum = []\<rparr>) (Some sid) = Some s0"
    using s0 by simp
  note chunks = run_chunks [OF init, of "e_assistantId env" deltas]
  have acc: "accum ?run = concat (map snd deltas)"
    using chunks by simp
  obtain s1 where s1: "activeSession (r_sessions ?run) (Some sid) = Some s1"
    and m1: "\<exists>c k b. messages s1 = with_streamed (e_assistantId env) c k b (messages s0)
                     \<or> messages s1 = messages s0"
  proof (cases "deltas = []")
    case True
    then have "?run = \<lparr>r_sessions = p_sessions p, accum = []\<rparr>" by (simp add: chunk_calls_def)
    with s0 that show ?thesis by auto
  next
    case False
    with chunks that show ?thesis by auto
  qed
  from onDone_session [OF s1 acc, of doneTime "e_assistantId env" usage]
  obtain s2 where s2: "activeSession (r_sessions (onDone doneTime sid (e_assistantId env) usage ?run))
                         (Some sid) = Some s2"
    and m2: "messages s2 = with_streamed (e_assistantId env) (concat (map snd deltas))
               (Some (case usage of None \<Rightarrow> estimateTokens (concat (map snd deltas))
                                  | Some u \<Rightarrow> completion_tokens u))
               (Some False) (messages s1)"
    by simp
  from m1 m2 have "messages s2 = with_streamed (e_assistantId env) (concat (map snd deltas))
               (Some (case usage of None \<Rightarrow> estimateTokens (concat (map snd deltas))
                                  | Some u \<Rightarrow> completion_tokens u))
               (Some False) (messages s0)"
    by (auto simp: with_streamed_twice)
  then have "messages s2 = messages s @
                [userMessage env m txt md atts,
                 (placeholder env m TextMode)
                   \<lparr>content := concat (map snd deltas),
                    tokensUsed := Some (case usage of
                                          None \<Rightarrow> estimateTokens (concat (map snd deltas))
                                        | Some u \<Rightarrow> completion_tokens u),
                    isPartial := Some False\<rparr>]"
    by (simp only: log split old new)
  moreover have "fst (textGeneration now friendlyMsg (p_sessionId p) (p_assistantId p)
                   (chunk_calls deltas @ [OnDone doneTime usage]) Resolves (p_sessions p))
          = r_sessions (onDone doneTime sid (e_assistantId env) usage ?run)"
    by (simp add: textGeneration_def run_callbacks_append ids)
  ultimately show ?thesis using s2 by simp
qed

section \<open>Properties of the streaming client\<close>

lemma handle_frame_observe:
  "handle_frame parse payload v =
     (case parse payload of
        None \<Rightarrow> ([], v)
      | Some j \<Rightarrow>
          if j = JNull then ([], v)
          else (if truthy (frame_delta j) then [Chunk (the (frame_delta j))] else [], observe v j))"
  by (auto simp: handle_frame_def Let_def observe_def frame_delta_def split: option.splits json.splits)

lemma split_nl_not_Nil [simp]: "split_nl s \<noteq> []"
  by (induction s) (auto split: list.splits)

lemma split_nl_append:
  "split_nl (a @ b) = butlast (split_nl a) @ split_nl (last (split_nl a) @ b)"
proof (induction a)
  case Nil
  show ?case by simp
next
  case (Cons c a)
  obtain p ps where s: "split_nl a = p # ps"
    by (cases "split_nl a") simp_all
  show ?case
  proof (cases "c = 10")
    case True
    with Cons s show ?thesis by simp
  next
    case False
    show ?thesis
    proof (cases "ps = []")
      case True
      with s Cons have "split_nl (a @ b) = split_nl (p @ b)" by simp
      with False s True show ?thesis by simp
    next
      case nonempty: False
      with s Cons have "split_nl (a @ b) = p # butlast ps @ split_nl (last ps @ b)" by simp
      with False s nonempty show ?thesis by simp
    qed
  qed
qed

lemma last_split_nl_no_newline: "10 \<notin> set (last (split_nl s))"
proof (induction s)
  case Nil
  show ?case by simp
next
  case (Cons c s)
  obtain p ps where s: "split_nl s = p # ps"
    by (cases "split_nl s") simp_all
  with Cons show ?case by (cases "ps = []") auto
qed

lemma split_nl_no_newline: "10 \<notin> set s \<Longrightarrow> split_nl s = [s]"
  by (induction s) auto

lemma complete_lines_append:
  "complete_lines (a @ b) = complete_lines a @ complete_lines (last (split_nl a) @ b)"
  unfolding complete_lines_def by (subst split_nl_append) (simp add: butlast_append)

lemma last_split_nl_append:
  "last (split_nl (a @ b)) = last (split_nl (last (split_nl a) @ b))"
  by (subst split_nl_append) simp

lemma process_lines_append:
  "process_lines parse (xs @ ys) v =
     (case process_lines parse xs v of
        (e1, v1, r1) \<Rightarrow>
          if r1 then (e1, v1, True)
          else (case process_lines parse ys v1 of (e2, v2, r2) \<Rightarrow> (e1 @ e2, v2, r2)))"
proof (induction xs arbitrary: v)
  case Nil
  show ?case by (simp split: prod.splits)
next
  case (Cons line rest)
  show ?case
    by (simp add: Cons.IH split: prod.splits)
qed


lemma delta_events_Cons:
  "delta_events (j # fs)
     = (if truthy (frame_delta j) then [Chunk (the (frame_delta j))] else []) @ delta_events fs"
  by (simp add: delta_events_def)

lemma delta_events_chunks: "\<forall>e \<in> set (delta_events fs). is_Chunk e"
  by (auto simp: delta_events_def)

lemma process_lines_frames:
  "process_lines parse lines v =
     (delta_events (List.map_filter (frame_of parse) (before_marker lines))
        @ (if \<exists>l \<in> set lines. trim l = js ''data: [DONE]''
           then [Done (lastUsage (foldl observe v (List.map_filter (frame_of parse) (before_marker lines))))
                      (lastTier (foldl observe v (List.map_filter (frame_of parse) (before_marker lines))))]
           else []),
      foldl observe v (List.map_filter (frame_of parse) (before_marker lines)),
      \<exists>l \<in> set lines. trim l = js ''data: [DONE]'')"
proof (induction lines arbitrary: v)
  case Nil
  show ?case by (simp add: before_marker_def map_filter_simps delta_events_def)
next
  case (Cons line rest)
  consider (blank) "trim line = [] \<or> trim line = js '':''"
    | (marker) "\<not> (trim line = [] \<or> trim line = js '':'')" "trim line = js ''data: [DONE]''"
    | (frame) "\<not> (trim line = [] \<or> trim line = js '':'')" "trim line \<noteq> js ''data: [DONE]''"
        "take 6 (trim line) = js ''data: ''"
    | (ignored) "\<not> (trim line = [] \<or> trim line = js '':'')" "trim line \<noteq> js ''data: [DONE]''"
        "take 6 (trim line) \<noteq> js ''data: ''"
    by blast
  then show ?case
  proof cases
    case blank
    then have f: "frame_of parse line = None" and m: "trim line \<noteq> js ''data: [DONE]''"
      by (auto simp: frame_of_def)
    from m have b: "before_marker (line # rest) = line # before_marker rest"
      by (simp add: before_marker_def)
    from blank have "process_lines parse (line # rest) v = process_lines parse rest v" by simp
    with Cons.IH [of v] f m show ?thesis
      unfolding b by (simp add: map_filter_simps)
  next
    case marker
    then have b: "before_marker (line # rest) = []"
      by (simp add: before_marker_def)
    from marker have "process_lines parse (line # rest) v = ([Done (lastUsage v) (lastTier v)], v, True)"
      by simp
    with marker show ?thesis
      unfolding b by (simp add: map_filter_simps delta_events_def)
  next
    case frame
    from frame have b: "before_marker (line # rest) = line # before_marker rest"
      by (simp add: before_marker_def)
    show ?thesis
    proof (cases "frame_of parse line")
      case None
      with frame have "handle_frame parse (drop 6 (trim line)) v = ([], v)"
        by (auto simp: frame_of_def handle_frame_observe split: option.splits if_splits)
      with frame have "process_lines parse (line # rest) v = process_lines parse rest v"
        by (simp split: prod.splits)
      with Cons.IH [of v] None frame(2) show ?thesis
        unfolding b by (simp add: map_filter_simps)
    next
      case (Some j)
      with frame have "handle_frame parse (drop 6 (trim line)) v
          = (if truthy (frame_delta j) then [Chunk (the (frame_delta j))] else [], observe v j)"
        by (auto simp: frame_of_def handle_frame_observe split: option.splits if_splits)
      with frame have "process_lines parse (line # rest) v =
          (case process_lines parse rest (observe v j) of
             (evs', v'', returned) \<Rightarrow>
               ((if truthy (frame_delta j) then [Chunk (the (frame_delta j))] else []) @ evs',
                v'', returned))"
        by simp
      with Cons.IH [of "observe v j"] Some frame(2) show ?thesis
        unfolding b by (simp add: map_filter_simps delta_events_Cons)
    qed
  next
    case ignored
    then have f: "frame_of parse line = None"
      by (simp add: frame_of_def)
    from ignored have b: "before_marker (line # rest) = line # before_marker rest"
      by (simp add: before_marker_def)
    from ignored have "process_lines parse (line # rest) v = process_lines parse rest v" by simp
    with Cons.IH [of v] f ignored(2) show ?thesis
      unfolding b by (simp add: map_filter_simps)
  qed
qed

lemma foldl_observe_last_seen:
  "lastUsage (foldl observe v fs)
     = (if filter (\<lambda>j. truthy (js_prop j (js ''usage''))) fs = [] then lastUsage v
        else last_seen (js ''usage'') fs)"
  "lastTier (foldl observe v fs)
     = (if filter (\<lambda>j. truthy (js_prop j (js ''user_tier''))) fs = [] then lastTier v
        else last_seen (js ''user_tier'') fs)"
  by (induction fs rule: rev_induct) (simp_all add: observe_def last_seen_def)

lemma foldl_observe_initial:
  "lastUsage (foldl observe \<lparr>lastUsage = None, lastTier = None\<rparr> fs) = last_seen (js ''usage'') fs"
  "lastTier (foldl observe \<lparr>lastUsage = None, lastTier = None\<rparr> fs) = last_seen (js ''user_tier'') fs"
  by (simp_all add: foldl_observe_last_seen) (simp_all add: last_seen_def)

lemma read_loop_lines:
  assumes "10 \<notin> set buffer"
  shows "read_loop parse (map Data chunks @ later) buffer v =
     (case process_lines parse (complete_lines (buffer @ concat chunks)) v of
        (evs, v', returned) \<Rightarrow>
          if returned then (evs, Inr ())
          else (case read_loop parse later (last (split_nl (buffer @ concat chunks))) v' of
                  (evs', r) \<Rightarrow> (evs @ evs', r)))"
  using assms
proof (induction chunks arbitrary: buffer v)
  case Nil
  then show ?case by (simp add: complete_lines_def split_nl_no_newline)
next
  case (Cons chunk chunks)
  let ?rest = "last (split_nl (buffer @ chunk))"
  obtain evs v' returned
    where p: "process_lines parse (complete_lines (buffer @ chunk)) v = (evs, v', returned)"
    by (cases "process_lines parse (complete_lines (buffer @ chunk)) v")
  have l: "complete_lines (buffer @ concat (chunk # chunks))
             = complete_lines (buffer @ chunk) @ complete_lines (?rest @ concat chunks)"
    using complete_lines_append [of "buffer @ chunk" "concat chunks"] by simp
  have b: "last (split_nl (buffer @ concat (chunk # chunks)))
             = last (split_nl (?rest @ concat chunks))"
    using last_split_nl_append [of "buffer @ chunk" "concat chunks"] by simp
  show ?case
  proof (cases returned)
    case True
    with p show ?thesis
      unfolding l process_lines_append by (simp add: complete_lines_def)
  next
    case False
    obtain e2 v2 r2
      where q: "process_lines parse (complete_lines (?rest @ concat chunks)) v' = (e2, v2, r2)"
      by (cases "process_lines parse (complete_lines (?rest @ concat chunks)) v'")
    obtain e3 r3
      where t: "read_loop parse later (last (split_nl (?rest @ concat chunks))) v2 = (e3, r3)"
      by (cases "read_loop parse later (last (split_nl (?rest @ concat chunks))) v2")
    from Cons.IH [OF last_split_nl_no_newline, of "buffer @ chunk" v'] q t
    have r: "read_loop parse (map Data chunks @ later) ?rest v'
               = (if r2 then (e2, Inr ()) else (e2 @ e3, r3))"
      by simp
    from p False have "read_loop parse (map Data (chunk # chunks) @ later) buffer v
        = (case read_loop parse (map Data chunks @ later) ?rest v' of
             (evs', r) \<Rightarrow> (evs @ evs', r))"
      by (simp add: complete_lines_def)
    with r have lhs: "read_loop parse (map Data (chunk # chunks) @ later) buffer v
        = (if r2 then (evs @ e2, Inr ()) else (evs @ e2 @ e3, r3))"
      by simp
    from p False q have "process_lines parse (complete_lines (buffer @ concat (chunk # chunks))) v
        = (evs @ e2, v2, r2)"
      unfolding l process_lines_append by simp
    with lhs t show ?thesis unfolding b by simp
  qed
qed

lemma process_stream_frames:
  "process_lines parse (complete_lines (concat chunks)) \<lparr>lastUsage = None, lastTier = None\<rparr> =
     (delta_events (stream_frames parse chunks)
        @ (if \<exists>l \<in> set (complete_lines (concat chunks)). trim l = js ''data: [DONE]''
           then [Done (last_seen (js ''usage'') (stream_frames parse chunks))
                      (last_seen (js ''user_tier'') (stream_frames parse chunks))]
           else []),
      foldl observe \<lparr>lastUsage = None, lastTier = None\<rparr> (stream_frames parse chunks),
      \<exists>l \<in> set (complete_lines (concat chunks)). trim l = js ''data: [DONE]'')"
proof -
  let ?v = "\<lparr>lastUsage = None, lastTier = None\<rparr>"
  let ?lines = "complete_lines (concat chunks)"
  let ?fs = "stream_frames parse chunks"
  have fs: "List.map_filter (frame_of parse) (before_marker ?lines) = ?fs"
    by (simp add: stream_frames_def)
  have d: "Done (lastUsage (foldl observe ?v ?fs)) (lastTier (foldl observe ?v ?fs))
             = Done (last_seen (js ''usage'') ?fs) (last_seen (js ''user_tier'') ?fs)"
    by (simp only: foldl_observe_initial)
  show ?thesis
    unfolding process_lines_frames [of parse ?lines ?v] fs d ..
qed

lemma read_loop_frames:
  "read_loop parse (map Data chunks) [] \<lparr>lastUsage = None, lastTier = None\<rparr> =
     (delta_events (stream_frames parse chunks)
        @ [Done (last_seen (js ''usage'') (stream_frames parse chunks))
                (last_seen (js ''user_tier'') (stream_frames parse chunks))], Inr ())"
proof -
  let ?v = "\<lparr>lastUsage = None, lastTier = None\<rparr>"
  let ?fs = "stream_frames parse chunks"
  have "read_loop parse (map Data chunks) [] ?v =
     (case process_lines parse (complete_lines (concat chunks)) ?v of
        (evs, v', returned) \<Rightarrow>
          if returned then (evs, Inr ())
          else (case read_loop parse [] (last (split_nl (concat chunks))) v' of
                  (evs', r) \<Rightarrow> (evs @ evs', r)))"
    using read_loop_lines [of "[]" parse chunks "[]" ?v] unfolding append_Nil append_Nil2 by simp
  also have "\<dots> = (delta_events ?fs
        @ [Done (last_seen (js ''usage'') ?fs) (last_seen (js ''user_tier'') ?fs)], Inr ())"
    unfolding process_stream_frames
    by (simp add: foldl_observe_initial del: js_simps)
  finally show ?thesis .
qed

lemma read_loop_marker:
  assumes "\<exists>l \<in> set (complete_lines (concat chunks)). trim l = js ''data: [DONE]''"
  shows "read_loop parse (map Data chunks @ later) [] \<lparr>lastUsage = None, lastTier = None\<rparr> =
     (delta_events (stream_frames parse chunks)
        @ [Done (last_seen (js ''usage'') (stream_frames parse chunks))
                (last_seen (js ''user_tier'') (stream_frames parse chunks))], Inr ())"
proof -
  let ?v = "\<lparr>lastUsage = None, lastTier = None\<rparr>"
  let ?fs = "stream_frames parse chunks"
  have "read_loop parse (map Data chunks @ later) [] ?v =
     (case process_lines parse (complete_lines (concat chunks)) ?v of
        (evs, v', returned) \<Rightarrow>
          if returned then (evs, Inr ())
          else (case read_loop parse later (last (split_nl (concat chunks))) v' of
                  (evs', r) \<Rightarrow> (evs @ evs', r)))"
    using read_loop_lines [of "[]" parse chunks later ?v] unfolding append_Nil by simp
  also have "\<dots> = (delta_events ?fs
        @ [Done (last_seen (js ''usage'') ?fs) (last_seen (js ''user_tier'') ?fs)], Inr ())"
    unfolding process_stream_frames using assms
    by (simp del: js_simps)
  finally show ?thesis .
qed

lemma data_line_not_blank:
  "take 6 (trim line) = js ''data: '' \<Longrightarrow> \<not> (trim line = [] \<or> trim line = js '':'')"
  by auto

text \<open>
  C1. When the response passes the checks made before the body is read and the reads
  deliver chunks until the transport reports the end, \<open>streamGeneration\<close> resolves and
  its calls are determined by the text received, however the reads cut it into chunks:
  one \<open>onChunk\<close> call for each frame with a delta, in order, among the frames of the
  complete lines before the end marker, and then exactly one \<open>onDone\<close> call, the last
  call it makes, with the last usage and the last tier that these frames carry
  (\<open>undefined\<close> where none does). When the complete lines of the chunks read so far hold
  the marker, the result is the same whatever the later reads would deliver or fail
  with: they are not made. Within one read: a line that trims to \<open>data: [DONE]\<close> makes
  it call \<open>onDone\<close> at once with the current \<open>lastUsage\<close> and \<open>lastTier\<close> and return, the
  rest of the lines and every later read not being looked at. A \<open>data: \<close> line other
  than the marker whose payload \<open>JSON.parse\<close> rejects (or parses to \<open>null\<close>) is skipped:
  the lines after it are processed as if it were absent. A \<open>data: \<close> line whose payload
  parses to a frame \<open>j\<close> updates \<open>lastUsage\<close> and \<open>lastTier\<close> to the frame's values where
  it has them, calls \<open>onChunk\<close> with the frame's delta if that is not empty, and goes on
  with the next line.
\<close>

theorem streamGeneration_onDone_once:
  "(readable res (map Data chunks) \<longrightarrow>
      streamGeneration parse (FetchResolves res)
        = (delta_events (stream_frames parse chunks)
             @ [Done (last_seen (js ''usage'') (stream_frames parse chunks))
                     (last_seen (js ''user_tier'') (stream_frames parse chunks))], Inr ())
      \<and> (\<forall>e \<in> set (delta_events (stream_frames parse chunks)). is_Chunk e))
   \<and> (readable res (map Data chunks @ later) \<and>
      (\<exists>l \<in> set (complete_lines (concat chunks)). trim l = js ''data: [DONE]'') \<longrightarrow>
      streamGeneration parse (FetchResolves res)
        = (delta_events (stream_frames parse chunks)
             @ [Done (last_seen (js ''usage'') (stream_frames parse chunks))
                     (last_seen (js ''user_tier'') (stream_frames parse chunks))], Inr ()))
   \<and> (trim line = js ''data: [DONE]'' \<longrightarrow>
        process_lines parse (line # rest) v = ([Done (lastUsage v) (lastTier v)], v, True))
   \<and> (process_lines parse (butlast (split_nl (buffer @ chunk))) v = (evs, v', True) \<longrightarrow>
        read_loop parse (Data chunk # more_reads) buffer v = (evs, Inr ()))
   \<and> (take 6 (trim line) = js ''data: '' \<and> trim line \<noteq> js ''data: [DONE]'' \<and>
        (parse (drop 6 (trim line)) = None \<or> parse (drop 6 (trim line)) = Some JNull) \<longrightarrow>
        process_lines parse (line # rest) v = process_lines parse rest v)
   \<and> (take 6 (trim line) = js ''data: '' \<and> trim line \<noteq> js ''data: [DONE]'' \<and>
        parse (drop 6 (trim line)) = Some j \<and> j \<noteq> JNull \<longrightarrow>
        process_lines parse (line # rest) v =
          (case process_lines parse rest (observe v j) of
             (evs', v'', returned) \<Rightarrow>
               ((if truthy (frame_delta j) then [Chunk (the (frame_delta j))] else []) @ evs',
                v'', returned)))"
proof (intro conjI impI)
  assume "readable res (map Data chunks)"
  then have "streamGeneration parse (FetchResolves res)
               = read_loop parse (map Data chunks) [] \<lparr>lastUsage = None, lastTier = None\<rparr>"
    by (auto simp: readable_def streamGeneration_def)
  then show "streamGeneration parse (FetchResolves res)
        = (delta_events (stream_frames parse chunks)
             @ [Done (last_seen (js ''usage'') (stream_frames parse chunks))
                     (last_seen (js ''user_tier'') (stream_frames parse chunks))], Inr ())"
    by (simp only: read_loop_frames)
next
  show "\<forall>e \<in> set (delta_events (stream_frames parse chunks)). is_Chunk e"
    by (rule delta_events_chunks)
next
  assume a: "readable res (map Data chunks @ later) \<and>
      (\<exists>l \<in> set (complete_lines (concat chunks)). trim l = js ''data: [DONE]'')"
  then have "streamGeneration parse (FetchResolves res)
               = read_loop parse (map Data chunks @ later) [] \<lparr>lastUsage = None, lastTier = None\<rparr>"
    by (auto simp: readable_def streamGeneration_def)
  moreover from a
  have "\<exists>l \<in> set (complete_lines (concat chunks)). trim l = js ''data: [DONE]''" ..
  ultimately show "streamGeneration parse (FetchResolves res)
        = (delta_events (stream_frames parse chunks)
             @ [Done (last_seen (js ''usage'') (stream_frames parse chunks))
                     (last_seen (js ''user_tier'') (stream_frames parse chunks))], Inr ())"
    by (simp only: read_loop_marker)
next
  assume "trim line = js ''data: [DONE]''"
  then show "process_lines parse (line # rest) v = ([Done (lastUsage v) (lastTier v)], v, True)"
    by simp
next
  assume "process_lines parse (butlast (split_nl (buffer @ chunk))) v = (evs, v', True)"
  then show "read_loop parse (Data chunk # more_reads) buffer v = (evs, Inr ())"
    by simp
next
  assume a: "take 6 (trim line) = js ''data: '' \<and> trim line \<noteq> js ''data: [DONE]'' \<and>
        (parse (drop 6 (trim line)) = None \<or> parse (drop 6 (trim line)) = Some JNull)"
  then have "handle_frame parse (drop 6 (trim line)) v = ([], v)"
    by (auto simp: handle_frame_observe)
  with a data_line_not_blank [of line]
  show "process_lines parse (line # rest) v = process_lines parse rest v"
    by (simp split: prod.splits)
next
  assume a: "take 6 (trim line) = js ''data: '' \<and> trim line \<noteq> js ''data: [DONE]'' \<and>
        parse (drop 6 (trim line)) = Some j \<and> j \<noteq> JNull"
  then have "handle_frame parse (drop 6 (trim line)) v
      = (if truthy (frame_delta j) then [Chunk (the (frame_delta j))] else [], observe v j)"
    by (simp add: handle_frame_observe)
  with a data_line_not_blank [of line]
  show "process_lines parse (line # rest) v =
          (case process_lines parse rest (observe v j) of
             (evs', v'', returned) \<Rightarrow>
               ((if truthy (frame_delta j) then [Chunk (the (frame_delta j))] else []) @ evs',
                v'', returned))"
    by simp
qed

lemma truthy_example_usage: "truthy (Some example_usage)"
  by (simp add: example_usage_def)

lemma example_stream_frames:
  "stream_frames example_parse example_chunks
     = [JObj [(js ''choices'',
          JArr [JObj [(js ''delta'', JObj [(js ''content'', JStr (js ''Hel''))])]])],
        JObj [(js ''choices'',
          JArr [JObj [(js ''delta'', JObj [(js ''content'', JStr (js ''lo''))])]]),
              (js ''usage'', example_usage),
              (js ''user_tier'', JStr (js ''seed''))]]"
  by (simp add: stream_frames_def example_chunks_def complete_lines_def before_marker_def
      frame_of_def map_filter_simps example_parse_def example_frame1_def example_frame2_def
      trim_def is_ws_def)

lemma example_stream_marker:
  "js ''data: [DONE]'' \<in> set (map trim (complete_lines (concat example_chunks)))"
  by (simp add: example_chunks_def complete_lines_def example_frame1_def example_frame2_def
      trim_def is_ws_def)

text \<open>
  The stream of the examples: the usage and the tier arrive in the second read and the
  marker ends in the third; the malformed line and the frame after the marker leave no
  trace. The result is the same when the connection is lost after the third read.
\<close>

theorem streamGeneration_onDone_once_witness:
  \<open>readable example_response (map Data example_chunks)
   \<and> streamGeneration example_parse (FetchResolves example_response)
       = ([Chunk (JStr (js ''Hel'')), Chunk (JStr (js ''lo'')),
           Done (Some example_usage) (Some (JStr (js ''seed'')))], Inr ())
   \<and> readable example_lost (map Data example_chunks @ [ReadFails (OtherError (js ''network error''))])
   \<and> js ''data: [DONE]'' \<in> set (map trim (complete_lines (concat example_chunks)))
   \<and> streamGeneration example_parse (FetchResolves example_lost)
       = ([Chunk (JStr (js ''Hel'')), Chunk (JStr (js ''lo'')),
           Done (Some example_usage) (Some (JStr (js ''seed'')))], Inr ())
   \<and> process_lines example_parse [js ''data: [DONE]'', js ''data: '' @ example_frame1]
         \<lparr>lastUsage = None, lastTier = None\<rparr>
       = ([Done None None], \<lparr>lastUsage = None, lastTier = None\<rparr>, True)
   \<and> process_lines example_parse [js ''data: {"choices":[{"delta"'', js ''data: [DONE]'']
         \<lparr>lastUsage = None, lastTier = None\<rparr>
       = process_lines example_parse [js ''data: [DONE]''] \<lparr>lastUsage = None, lastTier = None\<rparr>\<close>
proof -
  let ?v = "\<lparr>lastUsage = None, lastTier = None\<rparr>"
  let ?lost = "[ReadFails (OtherError (js ''network error''))]"
  have r: "readable example_response (map Data example_chunks)"
    by (simp add: readable_def example_response_def example_reads_def)
  have r': "readable example_lost (map Data example_chunks @ ?lost)"
    by (simp add: readable_def example_lost_def example_response_def)
  note m = example_stream_marker
  then have m': "\<exists>l \<in> set (complete_lines (concat example_chunks)). trim l = js ''data: [DONE]''"
    by (auto simp del: js_simps)
  have ev: "delta_events (stream_frames example_parse example_chunks)
              = [Chunk (JStr (js ''Hel'')), Chunk (JStr (js ''lo''))]"
    unfolding example_stream_frames by (simp add: delta_events_def frame_delta_def)
  have u: "last_seen (js ''usage'') (stream_frames example_parse example_chunks) = Some example_usage"
    unfolding example_stream_frames by (simp add: last_seen_def truthy_example_usage)
  have t: "last_seen (js ''user_tier'') (stream_frames example_parse example_chunks)
             = Some (JStr (js ''seed''))"
    unfolding example_stream_frames by (simp add: last_seen_def)
  from streamGeneration_onDone_once [of example_response example_chunks example_parse] r
  have "streamGeneration example_parse (FetchResolves example_response)
       = (delta_events (stream_frames example_parse example_chunks)
            @ [Done (last_seen (js ''usage'') (stream_frames example_parse example_chunks))
                    (last_seen (js ''user_tier'') (stream_frames example_parse example_chunks))], Inr ())"
    by blast
  then have a: "streamGeneration example_parse (FetchResolves example_response)
       = ([Chunk (JStr (js ''Hel'')), Chunk (JStr (js ''lo'')),
           Done (Some example_usage) (Some (JStr (js ''seed'')))], Inr ())"
    unfolding ev u t by simp
  from streamGeneration_onDone_once [of example_lost example_chunks example_parse ?lost] r' m'
  have "streamGeneration example_parse (FetchResolves example_lost)
       = (delta_events (stream_frames example_parse example_chunks)
            @ [Done (last_seen (js ''usage'') (stream_frames example_parse example_chunks))
                    (last_seen (js ''user_tier'') (stream_frames example_parse example_chunks))], Inr ())"
    by blast
  then have a': "streamGeneration example_parse (FetchResolves example_lost)
       = ([Chunk (JStr (js ''Hel'')), Chunk (JStr (js ''lo'')),
           Done (Some example_usage) (Some (JStr (js ''seed'')))], Inr ())"
    unfolding ev u t by simp
  have "trim (js ''data: [DONE]'') = js ''data: [DONE]''"
    by (simp add: trim_def is_ws_def)
  with streamGeneration_onDone_once [of _ _ example_parse _ "js ''data: [DONE]''"
      "[js ''data: '' @ example_frame1]" ?v]
  have b: "process_lines example_parse [js ''data: [DONE]'', js ''data: '' @ example_frame1] ?v
             = ([Done None None], ?v, True)"
    by simp
  have \<open>take 6 (trim (js ''data: {"choices":[{"delta"'')) = js ''data: ''
        \<and> trim (js ''data: {"choices":[{"delta"'') \<noteq> js ''data: [DONE]''
        \<and> (example_parse (drop 6 (trim (js ''data: {"choices":[{"delta"''))) = None
           \<or> example_parse (drop 6 (trim (js ''data: {"choices":[{"delta"''))) = Some JNull)\<close>
    by (simp add: trim_def is_ws_def example_parse_def example_frame1_def example_frame2_def)
  with streamGeneration_onDone_once [of _ _ example_parse _ \<open>js ''data: {"choices":[{"delta"''\<close>
      "[js ''data: [DONE]'']" ?v]
  have c: \<open>process_lines example_parse [js ''data: {"choices":[{"delta"'', js ''data: [DONE]''] ?v
             = process_lines example_parse [js ''data: [DONE]''] ?v\<close>
    by blast
  from r a r' m a' b c show ?thesis by (intro conjI)
qed
section \<open>Properties of the orchestrator\<close>

lemma activeSession_deleteMessagesFrom:
  assumes "activeSession store (Some sid) = Some a"
    and "findIndex (\<lambda>m. msg_id m = mid) (messages a) = Some i"
  shows "activeSession (deleteMessagesFrom now sid mid store) (Some sid)
           = Some (a\<lparr>messages := take i (messages a), updatedAt := now\<rparr>)"
proof -
  let ?f = "\<lambda>s. if sess_id s \<noteq> sid then s
              else (case findIndex (\<lambda>m. msg_id m = mid) (messages s) of
                      None \<Rightarrow> s
                    | Some idx \<Rightarrow> s\<lparr>messages := take idx (messages s), updatedAt := now\<rparr>)"
  have "find (\<lambda>s. sess_id s = sid) (map ?f store) = map_option ?f (find (\<lambda>s. sess_id s = sid) store)"
    by (rule find_map_sess) (simp split: option.splits)
  moreover from assms(1) have "find (\<lambda>s. sess_id s = sid) store = Some a"
    by (simp add: activeSession_def)
  moreover from this have "sess_id a = sid"
    by (auto simp: find_Some_iff)
  ultimately show ?thesis
    using assms(2) by (simp add: activeSession_def deleteMessagesFrom_def)
qed

lemma handleRegenerate_active:
  assumes "activeSessionId st = Some sid" and "sid \<noteq> []" and "\<not> isStreaming st"
    and "activeSession (sessions st) (Some sid) = Some a"
  shows "((\<forall>m \<in> set (messages a). msg_id m \<noteq> mid) \<longrightarrow>
            handleRegenerate now env st prev mid = NoOp)
       \<and> (messages a \<noteq> [] \<and> msg_id (messages a ! 0) = mid \<longrightarrow>
            handleRegenerate now env st prev mid = NoOp)
       \<and> (\<forall>i. 0 < i \<and> i < length (messages a) \<and> msg_id (messages a ! i) = mid \<and>
               (\<forall>j < i. msg_id (messages a ! j) \<noteq> mid) \<longrightarrow>
            (role (messages a ! (i - 1)) \<noteq> User \<longrightarrow> handleRegenerate now env st prev mid = NoOp)
          \<and> (role (messages a ! (i - 1)) = User \<longrightarrow>
               handleRegenerate now env st prev mid =
                 Resent (deleteMessagesFrom now sid mid prev)
                   (content (messages a ! (i - 1))) (mode (messages a ! (i - 1)))
                   (attachments (messages a ! (i - 1)))
                   (handleSend env st (deleteMessagesFrom now sid mid prev)
                      (content (messages a ! (i - 1))) (mode (messages a ! (i - 1)))
                      (attachments (messages a ! (i - 1))))
               \<and> activeSession (deleteMessagesFrom now sid mid (sessions st)) (Some sid)
                   = Some (a\<lparr>messages := take i (messages a), updatedAt := now\<rparr>)))"
proof (intro conjI allI impI)
  assume "\<forall>m \<in> set (messages a). msg_id m \<noteq> mid"
  then have "findIndex (\<lambda>m. msg_id m = mid) (messages a) = None"
    by (simp add: findIndex_None)
  with assms show "handleRegenerate now env st prev mid = NoOp"
    by (simp add: handleRegenerate_def)
next
  assume "messages a \<noteq> [] \<and> msg_id (messages a ! 0) = mid"
  then have "findIndex (\<lambda>m. msg_id m = mid) (messages a) = Some 0"
    by (simp add: findIndex_Some)
  with assms show "handleRegenerate now env st prev mid = NoOp"
    by (simp add: handleRegenerate_def)
next
  fix i
  assume i: "0 < i \<and> i < length (messages a) \<and> msg_id (messages a ! i) = mid \<and>
               (\<forall>j < i. msg_id (messages a ! j) \<noteq> mid)"
  then have f: "findIndex (\<lambda>m. msg_id m = mid) (messages a) = Some i"
    by (simp add: findIndex_Some)
  {
    assume "role (messages a ! (i - 1)) \<noteq> User"
    with assms f i show "handleRegenerate now env st prev mid = NoOp"
      by (simp add: handleRegenerate_def)
  next
    assume "role (messages a ! (i - 1)) = User"
    with assms f i
    show "handleRegenerate now env st prev mid =
            Resent (deleteMessagesFrom now sid mid prev)
              (content (messages a ! (i - 1))) (mode (messages a ! (i - 1)))
              (attachments (messages a ! (i - 1)))
              (handleSend env st (deleteMessagesFrom now sid mid prev)
                 (content (messages a ! (i - 1))) (mode (messages a ! (i - 1)))
                 (attachments (messages a ! (i - 1))))"
      by (simp add: handleRegenerate_def Let_def)
  next
    from assms(4) f
    show "activeSession (deleteMessagesFrom now sid mid (sessions st)) (Some sid)
            = Some (a\<lparr>messages := take i (messages a), updatedAt := now\<rparr>)"
      by (rule activeSession_deleteMessagesFrom)
  }
qed

text \<open>
  C5, as the code has it. \<open>handleRegenerate\<close> returns at once while \<open>isStreaming\<close> is set,
  when \<open>activeSessionId\<close> is \<open>null\<close> or empty, or when no session has that id. Otherwise,
  with \<open>a\<close> the active session: it is a no-op when no message of \<open>a\<close> has the given id, when the first message
  with that id is the first entry, or when the entry before it does not have role user.
  When the first message with the id is at index \<open>i > 0\<close> and the entry \<open>u\<close> before it has
  role user, it applies \<open>deleteMessagesFrom\<close> to the store and calls \<open>handleSend\<close> with
  the content, mode and attachments of \<open>u\<close>; when the store is the rendered one, the
  active session's log becomes its first \<open>i\<close> messages.
\<close>

theorem handleRegenerate_spec:
  "(isStreaming st \<or> activeSessionId st = None \<or> activeSessionId st = Some [] \<or>
      activeSession (sessions st) (activeSessionId st) = None \<longrightarrow>
      handleRegenerate now env st prev mid = NoOp)
   \<and> (activeSessionId st = Some sid \<and> sid \<noteq> [] \<and> \<not> isStreaming st \<and>
      activeSession (sessions st) (Some sid) = Some a \<longrightarrow>
      ((\<forall>m \<in> set (messages a). msg_id m \<noteq> mid) \<longrightarrow>
               handleRegenerate now env st prev mid = NoOp)
          \<and> (messages a \<noteq> [] \<and> msg_id (messages a ! 0) = mid \<longrightarrow>
               handleRegenerate now env st prev mid = NoOp)
          \<and> (\<forall>i. 0 < i \<and> i < length (messages a) \<and> msg_id (messages a ! i) = mid \<and>
                  (\<forall>j < i. msg_id (messages a ! j) \<noteq> mid) \<longrightarrow>
               (role (messages a ! (i - 1)) \<noteq> User \<longrightarrow> handleRegenerate now env st prev mid = NoOp)
             \<and> (role (messages a ! (i - 1)) = User \<longrightarrow>
                  handleRegenerate now env st prev mid =
                    Resent (deleteMessagesFrom now sid mid prev)
                      (content (messages a ! (i - 1))) (mode (messages a ! (i - 1)))
                      (attachments (messages a ! (i - 1)))
                      (handleSend env st (deleteMessagesFrom now sid mid prev)
                         (content (messages a ! (i - 1))) (mode (messages a ! (i - 1)))
                         (attachments (messages a ! (i - 1))))
                  \<and> activeSession (deleteMessagesFrom now sid mid (sessions st)) (Some sid)
                      = Some (a\<lparr>messages := take i (messages a), updatedAt := now\<rparr>))))"
proof (rule conjI; rule impI)
  assume "isStreaming st \<or> activeSessionId st = None \<or> activeSessionId st = Some [] \<or>
      activeSession (sessions st) (activeSessionId st) = None"
  then show "handleRegenerate now env st prev mid = NoOp"
    by (auto simp: handleRegenerate_def)
next
  assume "activeSessionId st = Some sid \<and> sid \<noteq> [] \<and> \<not> isStreaming st \<and>
      activeSession (sessions st) (Some sid) = Some a"
  then have "activeSessionId st = Some sid" "sid \<noteq> []" "\<not> isStreaming st"
    "activeSession (sessions st) (Some sid) = Some a" by simp_all
  then show "((\<forall>m \<in> set (messages a). msg_id m \<noteq> mid) \<longrightarrow>
            handleRegenerate now env st prev mid = NoOp)
       \<and> (messages a \<noteq> [] \<and> msg_id (messages a ! 0) = mid \<longrightarrow>
            handleRegenerate now env st prev mid = NoOp)
       \<and> (\<forall>i. 0 < i \<and> i < length (messages a) \<and> msg_id (messages a ! i) = mid \<and>
               (\<forall>j < i. msg_id (messages a ! j) \<noteq> mid) \<longrightarrow>
            (role (messages a ! (i - 1)) \<noteq> User \<longrightarrow> handleRegenerate now env st prev mid = NoOp)
          \<and> (role (messages a ! (i - 1)) = User \<longrightarrow>
               handleRegenerate now env st prev mid =
                 Resent (deleteMessagesFrom now sid mid prev)
                   (content (messages a ! (i - 1))) (mode (messages a ! (i - 1)))
                   (attachments (messages a ! (i - 1)))
                   (handleSend env st (deleteMessagesFrom now sid mid prev)
                      (content (messages a ! (i - 1))) (mode (messages a ! (i - 1)))
                      (attachments (messages a ! (i - 1))))
               \<and> activeSession (deleteMessagesFrom now sid mid (sessions st)) (Some sid)
                   = Some (a\<lparr>messages := take i (messages a), updatedAt := now\<rparr>)))"
    by (rule handleRegenerate_active)
qed

lemma example_state_active:
  "activeSession (sessions example_state) (Some (js ''s1'')) = Some (hd example_hi)"
  "messages (hd example_hi) =
     [example_message (js ''u1'') User (js ''hi''), example_message (js ''a1'') Assistant (js ''hello'')]"
  by (simp_all add: activeSession_def example_state_def example_hi_def example_session_def)

theorem handleRegenerate_spec_witness:
  "(\<exists>r. handleRegenerate 3000 example_env example_state example_hi (js ''a1'')
          = Resent (deleteMessagesFrom 3000 (js ''s1'') (js ''a1'') example_hi) (js ''hi'') TextMode [] r)
   \<and> map (\<lambda>m. (role m, content m))
         (messages (the (activeSession (deleteMessagesFrom 3000 (js ''s1'') (js ''a1'') example_hi)
            (Some (js ''s1'')))))
       = [(User, js ''hi'')]"
proof -
  let ?a = "hd example_hi"
  have h1: "activeSessionId example_state = Some (js ''s1'')"
    and h2: "js ''s1'' \<noteq> []"
    and h3: "\<not> isStreaming example_state"
    and st: "sessions example_state = example_hi"
    by (simp_all add: example_state_def)
  note h4 = example_state_active(1)
  have i: "0 < (1::nat) \<and> 1 < length (messages ?a) \<and> msg_id (messages ?a ! 1) = js ''a1'' \<and>
          (\<forall>j < 1. msg_id (messages ?a ! j) \<noteq> js ''a1'')"
    by (simp add: example_state_active(2) example_message_def)
  have u: "role (messages ?a ! (1 - 1)) = User" "content (messages ?a ! (1 - 1)) = js ''hi''"
    "mode (messages ?a ! (1 - 1)) = TextMode" "attachments (messages ?a ! (1 - 1)) = []"
    by (simp_all add: example_state_active(2) example_message_def)
  from handleRegenerate_spec [of example_state 3000 example_env example_hi "js ''a1''" "js ''s1''" ?a]
    h1 h2 h3 h4 i u(1)
  have "handleRegenerate 3000 example_env example_state example_hi (js ''a1'') =
          Resent (deleteMessagesFrom 3000 (js ''s1'') (js ''a1'') example_hi)
            (content (messages ?a ! (1 - 1))) (mode (messages ?a ! (1 - 1)))
            (attachments (messages ?a ! (1 - 1)))
            (handleSend example_env example_state (deleteMessagesFrom 3000 (js ''s1'') (js ''a1'') example_hi)
               (content (messages ?a ! (1 - 1))) (mode (messages ?a ! (1 - 1)))
               (attachments (messages ?a ! (1 - 1))))
         \<and> activeSession (deleteMessagesFrom 3000 (js ''s1'') (js ''a1'') (sessions example_state))
             (Some (js ''s1''))
             = Some (?a\<lparr>messages := take 1 (messages ?a), updatedAt := 3000\<rparr>)"
    by blast
  then show ?thesis
    unfolding u st by (simp add: example_state_active(2) example_message_def)
qed

text \<open>
  C5 as stated fails while a generation is in flight: the message \<open>a1\<close> is found in the
  active session at index 1 and the entry before it has role user, yet nothing is
  truncated and nothing is sent.
\<close>

theorem handleRegenerate_in_flight_counterexample:
  "activeSession (sessions (example_state\<lparr>isStreaming := True\<rparr>)) (Some (js ''s1'')) = Some (hd example_hi)
   \<and> findIndex (\<lambda>m. msg_id m = js ''a1'') (messages (hd example_hi)) = Some 1
   \<and> role (messages (hd example_hi) ! 0) = User
   \<and> handleRegenerate 3000 example_env (example_state\<lparr>isStreaming := True\<rparr>) example_hi (js ''a1'')
       = NoOp"
  by (simp add: handleRegenerate_def activeSession_def example_state_def example_hi_def
      example_session_def example_message_def)









section \<open>Properties of export and import\<close>

lemma session_json_props:
  "session_json s \<noteq> JNull"
  "js_prop (session_json s) (js ''id'') = Some (JStr (sess_id s))"
  "js_prop (session_json s) (js ''title'') = Some (JStr (title s))"
  "js_prop (session_json s) (js ''messages'') = Some (JArr (map message_json (messages s)))"
  by (simp_all add: session_json_def)

lemma message_json_content: "str_prop (message_json m) (js ''content'') = Some (content m)"
  by (simp add: message_json_def str_prop_def)

text \<open>The same facts with the key literals written out, as the simplifier meets them.\<close>

lemmas session_json_norm = session_json_props [simplified] message_json_content [simplified]

lemma validateSessions_session_json:
  "validateSessions (map session_json ss) =
     (if \<forall>s \<in> set ss. sess_id s \<noteq> [] then None else Some InvalidSession)"
  by (induction ss) (simp_all add: session_json_norm)

lemma validateSessions_rejects:
  "\<exists>x \<in> set vs. js_prop x (js ''id'') = None \<or> \<not> isArray (js_prop x (js ''messages''))
     \<Longrightarrow> validateSessions vs \<noteq> None"
  by (induction vs) auto

lemma exportData_sessions:
  "importJSON parse raw = (case validateSessions vs of None \<Rightarrow> Inr vs | Some e \<Rightarrow> Inl e)"
  if "parse raw = Some (exportData exportedAt vs)"
  using that by (simp add: importJSON_def exportData_def)

text \<open>
  C9, as the code has it. Let \<open>JSON.parse\<close> return, on the text \<open>JSON.stringify\<close> makes of
  the exported object, that object again. For every list of sessions whose ids are not
  empty, \<open>importJSON(exportJSON(sessions))\<close> returns the sessions it was given, so their
  ids, their titles and the contents of their messages, in order, are the originals.
  \<open>importJSON\<close> also accepts a text that parses to a bare array of such sessions. It throws
  when the parsed object has a \<open>sessions\<close> field that is not an array, and when the
  array of sessions (bare or in the \<open>sessions\<close> field) has an element without an
  \<open>id\<close> key or without an array under \<open>messages\<close>.
\<close>

theorem import_export_roundtrip:
  "(parse (stringify (exportData exportedAt (map session_json ss)))
      = Some (exportData exportedAt (map session_json ss))
    \<and> (\<forall>s \<in> set ss. sess_id s \<noteq> []) \<longrightarrow>
      importJSON parse (exportJSON stringify exportedAt (map session_json ss))
        = Inr (map session_json ss)
      \<and> map (\<lambda>v. str_prop v (js ''id'')) (map session_json ss) = map (\<lambda>s. Some (sess_id s)) ss
      \<and> map (\<lambda>v. str_prop v (js ''title'')) (map session_json ss) = map (\<lambda>s. Some (title s)) ss
      \<and> map imported_contents (map session_json ss)
          = map (\<lambda>s. Some (map (\<lambda>m. Some (content m)) (messages s))) ss)
   \<and> (parse raw = Some (JArr (map session_json ss)) \<and> (\<forall>s \<in> set ss. sess_id s \<noteq> []) \<longrightarrow>
        importJSON parse raw = Inr (map session_json ss))
   \<and> (parse raw = Some (JObj kvs) \<and> map_of kvs (js ''sessions'') = Some v \<and> \<not> isArray (Some v) \<longrightarrow>
        isl (importJSON parse raw))
   \<and> ((parse raw = Some (JArr vs) \<or>
         (parse raw = Some (JObj kvs) \<and> map_of kvs (js ''sessions'') = Some (JArr vs)))
        \<and> (\<exists>x \<in> set vs. js_prop x (js ''id'') = None \<or> \<not> isArray (js_prop x (js ''messages''))) \<longrightarrow>
        isl (importJSON parse raw))"
proof (intro conjI impI)
  assume a: "parse (stringify (exportData exportedAt (map session_json ss)))
      = Some (exportData exportedAt (map session_json ss))
    \<and> (\<forall>s \<in> set ss. sess_id s \<noteq> [])"
  then have "validateSessions (map session_json ss) = None"
    by (simp add: validateSessions_session_json)
  with a exportData_sessions [of parse "stringify (exportData exportedAt (map session_json ss))"
      exportedAt "map session_json ss"]
  show "importJSON parse (exportJSON stringify exportedAt (map session_json ss))
          = Inr (map session_json ss)"
    by (simp add: exportJSON_def)
next
  show "map (\<lambda>v. str_prop v (js ''id'')) (map session_json ss) = map (\<lambda>s. Some (sess_id s)) ss"
    by (simp add: str_prop_def session_json_norm)
next
  show "map (\<lambda>v. str_prop v (js ''title'')) (map session_json ss) = map (\<lambda>s. Some (title s)) ss"
    by (simp add: str_prop_def session_json_norm)
next
  show "map imported_contents (map session_json ss)
          = map (\<lambda>s. Some (map (\<lambda>m. Some (content m)) (messages s))) ss"
    by (simp add: imported_contents_def session_json_norm)
next
  assume "parse raw = Some (JArr (map session_json ss)) \<and> (\<forall>s \<in> set ss. sess_id s \<noteq> [])"
  then show "importJSON parse raw = Inr (map session_json ss)"
    by (simp add: importJSON_def validateSessions_session_json)
next
  assume a: "parse raw = Some (JObj kvs) \<and> map_of kvs (js ''sessions'') = Some v \<and> \<not> isArray (Some v)"
  then have "\<And>xs. v \<noteq> JArr xs" by auto
  with a show "isl (importJSON parse raw)"
    by (cases v) (simp_all add: importJSON_def)
next
  assume a: "(parse raw = Some (JArr vs) \<or>
         (parse raw = Some (JObj kvs) \<and> map_of kvs (js ''sessions'') = Some (JArr vs)))
        \<and> (\<exists>x \<in> set vs. js_prop x (js ''id'') = None \<or> \<not> isArray (js_prop x (js ''messages'')))"
  then obtain e where "validateSessions vs = Some e"
    using validateSessions_rejects [of vs] by auto
  with a show "isl (importJSON parse raw)"
    by (auto simp: importJSON_def)
qed

theorem import_export_roundtrip_witness:
  "map sess_id example_store = [js ''s1'', js ''s2'']
   \<and> label_parse (exportData example_exportedAt (map session_json example_store))
        (label_stringify (exportData example_exportedAt (map session_json example_store))
           (exportData example_exportedAt (map session_json example_store)))
       = Some (exportData example_exportedAt (map session_json example_store))
   \<and> importJSON (label_parse (exportData example_exportedAt (map session_json example_store)))
        (exportJSON (label_stringify (exportData example_exportedAt (map session_json example_store)))
           example_exportedAt (map session_json example_store))
       = Inr (map session_json example_store)
   \<and> map imported_contents (map session_json example_store)
       = [Some [Some (js ''one''), Some (js ''two''), Some (js ''three''), Some (js ''four'')], Some []]"
proof -
  let ?data = "exportData example_exportedAt (map session_json example_store)"
  have ids: "\<forall>s \<in> set example_store. sess_id s \<noteq> []"
    by (simp add: example_store_def example_session_def)
  have rt: "label_parse ?data (label_stringify ?data ?data) = Some ?data"
    by (simp add: label_parse_def label_stringify_def)
  from import_export_roundtrip [of "label_parse ?data" "label_stringify ?data" example_exportedAt
      example_store] ids rt
  have "importJSON (label_parse ?data) (exportJSON (label_stringify ?data) example_exportedAt
          (map session_json example_store)) = Inr (map session_json example_store)
      \<and> map imported_contents (map session_json example_store)
          = map (\<lambda>s. Some (map (\<lambda>m. Some (content m)) (messages s))) example_store"
    by blast
  moreover have "map (\<lambda>s. Some (map (\<lambda>m. Some (content m)) (messages s))) example_store
      = [Some [Some (js ''one''), Some (js ''two''), Some (js ''three''), Some (js ''four'')], Some []]"
    by (simp add: example_store_def example_session_def example_abcd_def example_message_def)
  moreover have "map sess_id example_store = [js ''s1'', js ''s2'']"
    by (simp add: example_store_def example_session_def)
  ultimately show ?thesis using rt by simp
qed

text \<open>
  C9 as stated fails for a session whose id is the empty string: the export parses back to
  the exported object, and \<open>validateSessions\<close> rejects it, since \<open>!s.id\<close> holds of \<open>''\<close>.
\<close>

theorem import_empty_id_counterexample:
  "label_parse (exportData example_exportedAt [session_json example_no_id])
     (label_stringify (exportData example_exportedAt [session_json example_no_id])
        (exportData example_exportedAt [session_json example_no_id]))
     = Some (exportData example_exportedAt [session_json example_no_id])
   \<and> importJSON (label_parse (exportData example_exportedAt [session_json example_no_id]))
       (exportJSON (label_stringify (exportData example_exportedAt [session_json example_no_id]))
          example_exportedAt [session_json example_no_id])
     = Inl InvalidSession"
proof -
  let ?data = "exportData example_exportedAt [session_json example_no_id]"
  have rt: "label_parse ?data (label_stringify ?data ?data) = Some ?data"
    by (simp add: label_parse_def label_stringify_def)
  have "validateSessions [session_json example_no_id] = Some InvalidSession"
    by (simp add: session_json_norm example_no_id_def example_session_def)
  with rt exportData_sessions [of "label_parse ?data" "label_stringify ?data ?data" example_exportedAt
      "[session_json example_no_id]"]
  show ?thesis by (simp add: exportJSON_def)
qed

end
